theory Spec2Isabelle
  imports Main "HOL-Library.Sublist" "HOL-Library.AList"
begin

section \<open>Postal-code permutations (create-postal-code-permutations.py)\<close>

text \<open>
  Strings are lists of characters, a character being a code point below 256; the postal
  codes, level names and phone numbers handled here are ASCII. Exceptions and process
  exits are values of \<open>error\<close>.
\<close>

datatype error =
    ValueError
  | TypeError
  | KeyError
  | AttributeError
  | SystemExit nat
  | RequestException string

subsection \<open>Alphabets\<close>

text \<open>
  \<^verbatim>\<open>VALID_LETTERS = [c for c in string.ascii_uppercase if c not in {'D','F','I','O','Q','U'}]\<close>
  and \<^verbatim>\<open>VALID_DIGITS = list("0123456789")\<close>.
\<close>

definition ascii_uppercase :: string where
  "ascii_uppercase = ''ABCDEFGHIJKLMNOPQRSTUVWXYZ''"

definition VALID_LETTERS :: string where
  "VALID_LETTERS = filter (\<lambda>c. c \<notin> set ''DFIOQU'') ascii_uppercase"

definition VALID_DIGITS :: string where
  "VALID_DIGITS = ''0123456789''"

subsection \<open>The three generators\<close>

text \<open>
  Each generator walks the input list and extends the accumulator \<open>all_permutations\<close>
  by the children of the current postal code. Rank 1 puts the separator \<open>+\<close> between the
  prefix and the digit.
\<close>

definition generate_ldu1_permutations :: "string list \<Rightarrow> string list" where
  "generate_ldu1_permutations postal_codes =
     fold (\<lambda>postal_code all_permutations.
             all_permutations @ map (\<lambda>d. postal_code @ ''+'' @ [d]) VALID_DIGITS)
          postal_codes []"

definition generate_ldu2_permutations :: "string list \<Rightarrow> string list" where
  "generate_ldu2_permutations postal_codes =
     fold (\<lambda>postal_code all_permutations.
             all_permutations @ map (\<lambda>l. postal_code @ [l]) VALID_LETTERS)
          postal_codes []"

definition generate_ldu3_permutations :: "string list \<Rightarrow> string list" where
  "generate_ldu3_permutations postal_codes =
     fold (\<lambda>postal_code all_permutations.
             all_permutations @ map (\<lambda>d. postal_code @ [d]) VALID_DIGITS)
          postal_codes []"

text \<open>\<^verbatim>\<open>len(code.replace('+', ''))\<close>: the length of a key without its separators.\<close>

definition remove_plus :: "string \<Rightarrow> string" where
  "remove_plus code = filter (\<lambda>c. c \<noteq> CHR ''+'') code"

definition actual_length :: "string \<Rightarrow> nat" where
  "actual_length code = length (remove_plus code)"

subsection \<open>Dispatch on the level name\<close>

text \<open>\<^verbatim>\<open>str.lower\<close> on ASCII text.\<close>

definition lower_char :: "char \<Rightarrow> char" where
  "lower_char c =
     (if c \<in> set ascii_uppercase then char_of (of_char c + (32::nat)) else c)"

definition lower :: "string \<Rightarrow> string" where
  "lower s = map lower_char s"

text \<open>
  \<open>generate_and_save_permutations\<close> returns the permutations; the file it writes is
  returned beside them as its name and content. An unknown level raises \<open>ValueError\<close>.
\<close>

definition generate_and_save_permutations ::
  "string list \<Rightarrow> string \<Rightarrow> error + (string \<times> string list)" where
  "generate_and_save_permutations postal_codes level =
     (if lower level = ''ldu1'' then
        Inr (''FSA_LDU1.json'', generate_ldu1_permutations postal_codes)
      else if lower level = ''ldu2'' then
        Inr (''FSA_LDU2.json'', generate_ldu2_permutations postal_codes)
      else if lower level = ''ldu3'' then
        Inr (''FSA_LDU3.json'', generate_ldu3_permutations postal_codes)
      else Inl ValueError)"

subsection \<open>Loading the keys to refine: JSON input\<close>

text \<open>
  Values read by \<^verbatim>\<open>json.load\<close>. Numbers are integers; an object is the list of its
  entries in order, with distinct names. Floating-point numbers are outside the model.
\<close>

datatype json =
    JNull
  | JBool bool
  | JInt int
  | JStr string
  | JList "json list"
  | JObj "(string \<times> json) list"

text \<open>
  \<^verbatim>\<open>isinstance(item, dict) and item.get('totalcount') == -1\<close>, and
  \<^verbatim>\<open>item.get('postal_code')\<close>, which is \<open>None\<close> for a missing entry.
\<close>

definition is_capped_item :: "json \<Rightarrow> bool" where
  "is_capped_item item =
     (case item of
        JObj entries \<Rightarrow> map_of entries ''totalcount'' = Some (JInt (- 1))
      | _ \<Rightarrow> False)"

definition item_postal_code :: "json \<Rightarrow> json" where
  "item_postal_code item =
     (case item of
        JObj entries \<Rightarrow> (case map_of entries ''postal_code'' of None \<Rightarrow> JNull | Some v \<Rightarrow> v)
      | _ \<Rightarrow> JNull)"

text \<open>
  The variable \<open>postal_codes\<close> first names a list of its own. The \<open>else\<close> branch rebinds it
  to \<open>data\<close>, the list the loop is iterating over: from then on an \<open>append\<close> lengthens
  \<open>data\<close> itself and the loop goes on through the appended elements. \<open>Own l\<close> is the
  first state, \<open>Data\<close> the second; the loop counter \<open>i\<close> is the list iterator's index.
\<close>

datatype binding = Own "json list" | Data

lemma size_map_of: "map_of entries k = Some v \<Longrightarrow> size v < size (JObj entries)"
  by (induction entries) (auto split: if_splits)

lemma size_item_postal_code:
  "is_capped_item item \<Longrightarrow> size (item_postal_code item) < size item"
  by (cases item)
    (auto simp: is_capped_item_def item_postal_code_def split: option.splits dest: size_map_of)

function load_loop :: "nat \<Rightarrow> json list \<Rightarrow> binding \<Rightarrow> json list" where
  "load_loop i data postal_codes =
     (if i < length data then
        (let item = data ! i in
         if is_capped_item item then
           (case postal_codes of
              Own l \<Rightarrow> load_loop (i + 1) data (Own (l @ [item_postal_code item]))
            | Data \<Rightarrow> load_loop (i + 1) (data @ [item_postal_code item]) Data)
         else load_loop (i + 1) data Data)
      else (case postal_codes of Own l \<Rightarrow> l | Data \<Rightarrow> data))"
  by pat_completeness auto
termination
proof (relation "measure (\<lambda>(i, data, postal_codes).
    sum_list (map (\<lambda>j. Suc (size j)) (drop i data)))", goal_cases)
  case 1
  show ?case by simp
next
  case (2 i data postal_codes item l)
  then show ?case by (simp add: Cons_nth_drop_Suc [symmetric])
next
  case (3 i data postal_codes item)
  then show ?case
    using size_item_postal_code [of "data ! i"] by (simp add: Cons_nth_drop_Suc [symmetric])
next
  case (4 i data postal_codes item)
  then show ?case by (simp add: Cons_nth_drop_Suc [symmetric])
qed

declare load_loop.simps [simp del]

text \<open>The JSON branch of \<open>load_postal_codes\<close>, for a file that holds a list.\<close>

definition load_postal_codes_json :: "json list \<Rightarrow> json list" where
  "load_postal_codes_json data = load_loop 0 data (Own [])"

subsection \<open>Loading the keys to refine: CSV input\<close>

text \<open>
  A table read by \<^verbatim>\<open>pandas.read_csv\<close>: its columns in order, each with its name and
  its values, which are missing, integers or text. With both columns present the rows
  with \<open>totalcount = -1\<close> are selected; without \<open>totalcount\<close> every postal code is
  taken; without \<open>postal_code\<close> the first column is taken, and the \<open>IndexError\<close> of a
  table with no column is caught and gives the empty list.
\<close>

datatype csv_value = VNaN | VInt int | VStr string

type_synonym frame = "(string \<times> csv_value list) list"

definition load_postal_codes_csv :: "frame \<Rightarrow> csv_value list" where
  "load_postal_codes_csv df =
     (case map_of df ''postal_code'' of
        Some postal_codes \<Rightarrow>
          (case map_of df ''totalcount'' of
             Some totalcounts \<Rightarrow>
               map fst (filter (\<lambda>(p, t). t = VInt (- 1)) (zip postal_codes totalcounts))
           | None \<Rightarrow> postal_codes)
      | None \<Rightarrow> (case df of [] \<Rightarrow> [] | (name, first_column) # rest \<Rightarrow> first_column))"

subsection \<open>The script body\<close>

text \<open>
  \<open>load_postal_codes\<close> chooses by the extension of the input file: a JSON file, here one
  that holds a list, a CSV file, or any other file, whose \<open>ValueError\<close> is caught and
  gives the empty list. What it returns is a list of JSON values or of table values.
\<close>

datatype input_file = Json_file "json list" | Csv_file frame | Other_file

type_synonym loaded = "json + csv_value"

definition load_postal_codes :: "input_file \<Rightarrow> loaded list" where
  "load_postal_codes input_file =
     (case input_file of
        Json_file data \<Rightarrow> map Inl (load_postal_codes_json data)
      | Csv_file df \<Rightarrow> map Inr (load_postal_codes_csv df)
      | Other_file \<Rightarrow> [])"

definition required_length_map :: "nat \<rightharpoonup> nat" where
  "required_length_map = [1 \<mapsto> 3, 2 \<mapsto> 4, 3 \<mapsto> 5]"

definition level_map :: "nat \<rightharpoonup> string" where
  "level_map = [1 \<mapsto> ''ldu1'', 2 \<mapsto> ''ldu2'', 3 \<mapsto> ''ldu3'']"

text \<open>
  \<^verbatim>\<open>code.replace\<close> exists for a string only: on an object, a list, a number, a null
  or a missing value it raises \<open>AttributeError\<close>, which nothing catches.
\<close>

fun code_str :: "loaded \<Rightarrow> string option" where
  "code_str (Inl (JStr s)) = Some s"
| "code_str (Inr (VStr s)) = Some s"
| "code_str _ = None"

text \<open>
  The filtering loop: keep the codes whose length without \<open>+\<close> is the required one. The
  accumulator is \<open>filtered_postal_codes\<close>.
\<close>

fun filter_loop :: "nat \<Rightarrow> loaded list \<Rightarrow> string list \<Rightarrow> error + string list" where
  "filter_loop required_length [] filtered_postal_codes = Inr filtered_postal_codes"
| "filter_loop required_length (code # rest) filtered_postal_codes =
     (case code_str code of
        None \<Rightarrow> Inl AttributeError
      | Some s \<Rightarrow>
          if actual_length s = required_length
          then filter_loop required_length rest (filtered_postal_codes @ [s])
          else filter_loop required_length rest filtered_postal_codes)"

definition filter_postal_codes :: "nat \<Rightarrow> loaded list \<Rightarrow> error + string list" where
  "filter_postal_codes required_length postal_codes = filter_loop required_length postal_codes []"

text \<open>
  The script after \<open>load_postal_codes\<close> has returned \<open>postal_codes\<close>. The argument parser
  admits the levels 1, 2 and 3 only and exits with status 2 otherwise; the two
  \<^verbatim>\<open>sys.exit(1)\<close> guards are the empty input and the empty filtered list.
\<close>

definition main_script :: "nat \<Rightarrow> loaded list \<Rightarrow> error + (string \<times> string list)" where
  "main_script level postal_codes =
     (if level \<notin> {1, 2, 3} then Inl (SystemExit 2)
      else if postal_codes = [] then Inl (SystemExit 1)
      else case required_length_map level of
        None \<Rightarrow> Inl KeyError
      | Some required_length \<Rightarrow>
          (case filter_postal_codes required_length postal_codes of
             Inl e \<Rightarrow> Inl e
           | Inr filtered \<Rightarrow>
               if filtered = [] then Inl (SystemExit 1)
               else case level_map level of
                 None \<Rightarrow> Inl KeyError
               | Some level_name \<Rightarrow> generate_and_save_permutations filtered level_name))"

text \<open>The whole script, from the input file.\<close>

definition permutations_script ::
  "nat \<Rightarrow> input_file \<Rightarrow> error + (string \<times> string list)" where
  "permutations_script level input_file = main_script level (load_postal_codes input_file)"

section \<open>Aggregation (create-output.py)\<close>

subsection \<open>Phone formatting\<close>

text \<open>
  \<open>format_phone\<close> works on \<^verbatim>\<open>str(number)\<close>, which is its argument here.
  \<^verbatim>\<open>re.sub(r'\D', '', s)\<close> keeps the decimal digits of \<open>s\<close>; the result \<open>None\<close> is the
  marker of a number that cannot be formatted.
\<close>

definition is_digit :: "char \<Rightarrow> bool" where
  "is_digit c = (c \<in> set ''0123456789'')"

definition format_phone :: "string \<Rightarrow> string option" where
  "format_phone number =
     (let digits = filter is_digit number in
      if length digits = 10
      then Some (''('' @ take 3 digits @ '') '' @ take 3 (drop 3 digits) @ ''-'' @ drop 6 digits)
      else None)"

subsection \<open>Raw files and the two tables\<close>

text \<open>
  A raw file is an object with the optional entries \<open>postal_code\<close> (text), \<open>totalcount\<close>
  (integer) and \<open>results\<close>, a list of detail records. A detail record is an object whose
  values are text or null; a name that a record lacks is a missing value of the table.
\<close>

datatype cell = CNull | CStr string

type_synonym detail_row = "(string \<times> cell) list"

record raw_file =
  rf_postal_code :: "string option"
  rf_totalcount :: "int option"
  rf_results :: "detail_row list"

text \<open>
  One summary row per file, with the defaults \<open>unknown\<close> and \<open>0\<close> of
  \<^verbatim>\<open>data.get\<close>; the detail rows of all the files, in file order.
\<close>

record summary_row =
  sr_postal_code :: string
  sr_totalcount :: int

definition summary_of :: "raw_file \<Rightarrow> summary_row" where
  "summary_of data =
     \<lparr>sr_postal_code = (case rf_postal_code data of None \<Rightarrow> ''unknown'' | Some p \<Rightarrow> p),
      sr_totalcount = (case rf_totalcount data of None \<Rightarrow> 0 | Some t \<Rightarrow> t)\<rparr>"

definition read_files :: "raw_file list \<Rightarrow> summary_row list \<times> detail_row list" where
  "read_files files =
     fold (\<lambda>data (summary_rows, detail_rows).
             (summary_rows @ [summary_of data],
              if rf_results data \<noteq> [] then detail_rows @ rf_results data else detail_rows))
          files ([], [])"

text \<open>
  The columns of \<^verbatim>\<open>pd.DataFrame(detail_rows)\<close> are the names used by any of the rows.
  \<open>drop_duplicates\<close> keeps the first row of each key value. Whether a null id and a
  missing id count as one value depends on the version of the table library, so it is the
  parameter \<open>null_is_missing\<close>.
\<close>

definition has_column :: "string \<Rightarrow> detail_row list \<Rightarrow> bool" where
  "has_column col rows = list_ex (\<lambda>row. col \<in> fst ` set row) rows"

definition cpsonumber_key :: "bool \<Rightarrow> detail_row \<Rightarrow> cell option" where
  "cpsonumber_key null_is_missing row =
     (case map_of row ''cpsonumber'' of
        None \<Rightarrow> None
      | Some CNull \<Rightarrow> (if null_is_missing then None else Some CNull)
      | Some (CStr s) \<Rightarrow> Some (CStr s))"

fun drop_duplicates :: "('a \<Rightarrow> 'k) \<Rightarrow> 'k list \<Rightarrow> 'a list \<Rightarrow> 'a list" where
  "drop_duplicates key seen [] = []"
| "drop_duplicates key seen (row # rows) =
     (if key row \<in> set seen then drop_duplicates key seen rows
      else row # drop_duplicates key (key row # seen) rows)"

text \<open>
  \<^verbatim>\<open>detail_df[col].apply(format_phone)\<close>: every row gets the formatted value of its
  cell. The text of a missing value is \<open>nan\<close> and of a null \<open>None\<close>.
\<close>

definition format_cell :: "cell option \<Rightarrow> cell" where
  "format_cell v =
     (case (case v of
              None \<Rightarrow> format_phone ''nan''
            | Some CNull \<Rightarrow> format_phone ''None''
            | Some (CStr s) \<Rightarrow> format_phone s) of
        None \<Rightarrow> CNull
      | Some formatted \<Rightarrow> CStr formatted)"

definition apply_format_phone :: "string \<Rightarrow> detail_row list \<Rightarrow> detail_row list" where
  "apply_format_phone col df = map (\<lambda>row. AList.update col (format_cell (map_of row col)) row) df"

definition detail_table :: "bool \<Rightarrow> detail_row list \<Rightarrow> detail_row list" where
  "detail_table null_is_missing detail_rows =
     (if detail_rows = [] then []
      else
        (let df1 = (if has_column ''cpsonumber'' detail_rows
                    then drop_duplicates (cpsonumber_key null_is_missing) [] detail_rows
                    else detail_rows);
             df2 = (if has_column ''phonenumber'' detail_rows
                    then apply_format_phone ''phonenumber'' df1 else df1);
             df3 = (if has_column ''fax'' detail_rows
                    then apply_format_phone ''fax'' df2 else df2)
         in df3))"

text \<open>The capped postal codes: a count of \<open>-1\<close> and a postal code of seven characters.\<close>

definition summary_df_capped :: "summary_row list \<Rightarrow> summary_row list" where
  "summary_df_capped summary_df =
     filter (\<lambda>row. sr_totalcount row = - 1 \<and> length (sr_postal_code row) = 7) summary_df"

text \<open>\<open>process_data\<close> returns early when the pattern matches no file.\<close>

record csv_outputs =
  summary_csv :: "summary_row list"
  capped :: "summary_row list"
  details_csv :: "detail_row list"

definition process_data :: "bool \<Rightarrow> raw_file list \<Rightarrow> csv_outputs option" where
  "process_data null_is_missing files =
     (if files = [] then None
      else
        (let (summary_rows, detail_rows) = read_files files in
         Some \<lparr>summary_csv = summary_rows,
               capped = summary_df_capped summary_rows,
               details_csv = detail_table null_is_missing detail_rows\<rparr>))"

section \<open>Fetching (scrape-cpso.py)\<close>

text \<open>
  The doctor type is one of the three choices of the argument parser. The network is an
  oracle: the \<open>n\<close>-th request of a run, a \<open>GET\<close> of the search page or a \<open>POST\<close> with
  a body, either raises an exception with a message or returns a response with a status
  code and the result of \<^verbatim>\<open>response.json()\<close>, which is a value or the message of a
  decoding error. \<open>clock\<close> counts the requests made. The random pause before each postal
  code is not modelled.
\<close>

datatype doctor_type = Any | Family_Doctor | Specialist

fun doctor_type_str :: "doctor_type \<Rightarrow> string" where
  "doctor_type_str Any = ''Any''"
| "doctor_type_str Family_Doctor = ''Family+Doctor''"
| "doctor_type_str Specialist = ''Specialist''"

definition request_body :: "string \<Rightarrow> doctor_type \<Rightarrow> string \<Rightarrow> string" where
  "request_body postal_code doctor_type last_name =
     (if doctor_type = Any then
        ''cbx-includeinactive=on&postalCode='' @ postal_code
          @ ''&doctorType='' @ doctor_type_str doctor_type
      else if doctor_type = Family_Doctor \<and> last_name = ''Any'' then
        ''cbx-includeinactive=on&postalCode='' @ postal_code
          @ ''&doctorType='' @ doctor_type_str doctor_type
      else if doctor_type = Specialist \<and> last_name = ''Any'' then
        ''cbx-includeinactive=on&postalCode='' @ postal_code
          @ ''&doctorType='' @ doctor_type_str doctor_type @ ''&SpecialistType=Psychiatry''
      else if doctor_type = Family_Doctor \<and> last_name \<noteq> ''Any'' then
        ''cbx-includeinactive=on&lastName='' @ last_name @ ''&postalCode='' @ postal_code
          @ ''&doctorType='' @ doctor_type_str doctor_type
      else
        ''cbx-includeinactive=on&lastName='' @ last_name @ ''&postalCode='' @ postal_code
          @ ''&doctorType='' @ doctor_type_str doctor_type @ ''&SpecialistType=Psychiatry'')"

datatype request = GET | POST string

datatype outcome = Response nat "string + json" | Raised string

type_synonym network = "nat \<Rightarrow> request \<Rightarrow> outcome"

text \<open>\<^verbatim>\<open>needle in haystack\<close> on strings.\<close>

primrec contains :: "string \<Rightarrow> string \<Rightarrow> bool" where
  "contains needle [] = (needle = [])"
| "contains needle (c # cs) = (prefix needle (c # cs) \<or> contains needle cs)"

text \<open>
  One pass through the body of the retry loop either returns from the function or falls
  through to the backoff. An exception whose text holds the marker returns \<open>None\<close>.
\<close>

datatype attempt = Returned json | Backoff

definition on_exception :: "string \<Rightarrow> attempt" where
  "on_exception msg =
     (if contains ''Invalid control character at: line'' msg then Returned JNull else Backoff)"

definition attempt_result :: "outcome \<Rightarrow> attempt" where
  "attempt_result out =
     (case out of
        Response status_code body \<Rightarrow>
          if status_code = 200 then
            (case body of Inr payload \<Rightarrow> Returned payload | Inl msg \<Rightarrow> on_exception msg)
          else if status_code = 429 then Backoff
          else Backoff
      | Raised msg \<Rightarrow> on_exception msg)"

text \<open>
  The retry loop, with the delays slept so far. Its result carries the value returned
  (\<open>JNull\<close> for \<open>None\<close>), the delays slept, the final retry counter and the clock.
\<close>

record fetch_result =
  fr_value :: json
  fr_sleeps :: "int list"
  fr_retries :: nat
  fr_clock :: nat

function fetch_loop ::
  "network \<Rightarrow> string \<Rightarrow> nat \<Rightarrow> nat \<Rightarrow> int \<Rightarrow> nat \<Rightarrow> int list \<Rightarrow> fetch_result" where
  "fetch_loop net body max_retries retries delay clock slept =
     (if retries < max_retries then
        (case attempt_result (net clock (POST body)) of
           Returned v \<Rightarrow>
             \<lparr>fr_value = v, fr_sleeps = slept, fr_retries = retries, fr_clock = clock + 1\<rparr>
         | Backoff \<Rightarrow>
             fetch_loop net body max_retries (retries + 1) (delay * 2) (clock + 1)
               (slept @ [delay]))
      else \<lparr>fr_value = JNull, fr_sleeps = slept, fr_retries = retries, fr_clock = clock\<rparr>)"
  by pat_completeness auto
termination
  by (relation "measure (\<lambda>(net, body, max_retries, retries, delay, clock, slept).
        max_retries - retries)") auto

declare fetch_loop.simps [simp del]

definition fetch_with_backoff :: "network \<Rightarrow> string \<Rightarrow> nat \<Rightarrow> nat \<Rightarrow> int \<Rightarrow> fetch_result" where
  "fetch_with_backoff net body clock max_retries initial_delay =
     fetch_loop net body max_retries 0 initial_delay clock []"

text \<open>Python's truth value and \<open>len\<close> of a JSON value.\<close>

fun truthy :: "json \<Rightarrow> bool" where
  "truthy JNull = False"
| "truthy (JBool b) = b"
| "truthy (JInt n) = (n \<noteq> 0)"
| "truthy (JStr s) = (s \<noteq> [])"
| "truthy (JList xs) = (xs \<noteq> [])"
| "truthy (JObj entries) = (entries \<noteq> [])"

fun py_len :: "json \<Rightarrow> error + nat" where
  "py_len (JStr s) = Inr (length s)"
| "py_len (JList xs) = Inr (length xs)"
| "py_len (JObj entries) = Inr (length entries)"
| "py_len _ = Inl TypeError"

definition results_len :: "json \<Rightarrow> error + nat" where
  "results_len result =
     (case result of
        JObj entries \<Rightarrow>
          py_len (case map_of entries ''results'' of None \<Rightarrow> JList [] | Some v \<Rightarrow> v)
      | _ \<Rightarrow> Inl AttributeError)"

text \<open>
  The state of \<open>fetch_results_with_rate_limit\<close>: the list \<open>all_results\<close>, the raw files
  by name, and the clock. One loop iteration: the session \<open>GET\<close>, outside any
  \<open>try\<close>, then \<open>fetch_with_backoff\<close> with its default 5 retries and initial delay 2,
  then, for a truthy result, the item assignment, the \<open>len\<close> of the results and the file.
\<close>

record scrape_state =
  all_results :: "json list"
  raw_files :: "string \<rightharpoonup> json"
  clock :: nat

definition raw_filename :: "string \<Rightarrow> doctor_type \<Rightarrow> string \<Rightarrow> string" where
  "raw_filename postal_code doctor_type last_name =
     postal_code @ ''+'' @ doctor_type_str doctor_type @ ''+'' @ last_name @ ''.json''"

definition scrape_postal_code ::
  "network \<Rightarrow> doctor_type \<Rightarrow> string \<Rightarrow> string \<Rightarrow> scrape_state \<Rightarrow> error + scrape_state" where
  "scrape_postal_code net doctor_type last_name postal_code st =
     (case net (clock st) GET of
        Raised msg \<Rightarrow> Inl (RequestException msg)
      | Response status_code content \<Rightarrow>
          (let fr = fetch_with_backoff net (request_body postal_code doctor_type last_name)
                      (clock st + 1) 5 2;
               result_data = fr_value fr in
           if truthy result_data then
             (case result_data of
                JObj entries \<Rightarrow>
                  (let result_data' = JObj (AList.update ''postal_code'' (JStr postal_code) entries) in
                   case results_len result_data' of
                     Inl e \<Rightarrow> Inl e
                   | Inr n \<Rightarrow>
                       Inr \<lparr>all_results = all_results st @ [result_data'],
                            raw_files = (raw_files st)
                              (raw_filename postal_code doctor_type last_name \<mapsto> result_data'),
                            clock = fr_clock fr\<rparr>)
              | _ \<Rightarrow> Inl TypeError)
           else Inr (st\<lparr>clock := fr_clock fr\<rparr>)))"

fun fetch_results_loop ::
  "network \<Rightarrow> doctor_type \<Rightarrow> string \<Rightarrow> string list \<Rightarrow> scrape_state \<Rightarrow> error + scrape_state" where
  "fetch_results_loop net doctor_type last_name [] st = Inr st"
| "fetch_results_loop net doctor_type last_name (postal_code # rest) st =
     (case scrape_postal_code net doctor_type last_name postal_code st of
        Inl e \<Rightarrow> Inl e
      | Inr st' \<Rightarrow> fetch_results_loop net doctor_type last_name rest st')"

definition fetch_results_with_rate_limit ::
  "network \<Rightarrow> string list \<Rightarrow> doctor_type \<Rightarrow> string \<Rightarrow> (string \<rightharpoonup> json) \<Rightarrow> error + scrape_state" where
  "fetch_results_with_rate_limit net postal_codes doctor_type last_name files =
     fetch_results_loop net doctor_type last_name postal_codes
       \<lparr>all_results = [], raw_files = files, clock = 0\<rparr>"

text \<open>
  \<open>run_simple_scrape\<close> prints the summary line, the number of doctors retrieved and
  \<^verbatim>\<open>len(postal_codes)\<close>, and returns the results.
\<close>

fun total_results :: "json list \<Rightarrow> error + nat" where
  "total_results [] = Inr 0"
| "total_results (result # rest) =
     (case results_len result of
        Inl e \<Rightarrow> Inl e
      | Inr n \<Rightarrow> (case total_results rest of Inl e \<Rightarrow> Inl e | Inr m \<Rightarrow> Inr (n + m)))"

record scrape_report =
  summary_doctors :: nat
  summary_postal_codes :: nat
  results :: "json list"
  files_after :: "string \<rightharpoonup> json"

definition run_simple_scrape ::
  "network \<Rightarrow> string list \<Rightarrow> doctor_type \<Rightarrow> string \<Rightarrow> (string \<rightharpoonup> json) \<Rightarrow> error + scrape_report" where
  "run_simple_scrape net postal_codes doctor_type last_name files =
     (case fetch_results_with_rate_limit net postal_codes doctor_type last_name files of
        Inl e \<Rightarrow> Inl e
      | Inr st \<Rightarrow>
          (case total_results (all_results st) of
             Inl e \<Rightarrow> Inl e
           | Inr total_doctors \<Rightarrow>
               Inr \<lparr>summary_doctors = total_doctors,
                    summary_postal_codes = length postal_codes,
                    results = all_results st,
                    files_after = raw_files st\<rparr>))"

subsection \<open>Some networks\<close>

text \<open>
  A network whose every answer is the empty object; one whose every \<open>POST\<close> times out;
  one that always answers with a given count and no results; one that answers
  \<open>429\<close> to a \<open>POST\<close> among its first \<open>k\<close> requests; and one whose \<open>POST\<close> answers
  cannot be decoded.
\<close>

definition net_empty_object :: network where
  "net_empty_object = (\<lambda>n req. Response 200 (Inr (JObj [])))"

definition net_timeout :: network where
  "net_timeout = (\<lambda>n req. case req of
       GET \<Rightarrow> Response 200 (Inl ''Expecting value'')
     | POST body \<Rightarrow> Raised ''Read timed out'')"

definition net_count :: "int \<Rightarrow> network" where
  "net_count t =
     (\<lambda>n req. Response 200 (Inr (JObj [(''totalcount'', JInt t), (''results'', JList [])])))"

definition net_rate_limited :: "nat \<Rightarrow> network" where
  "net_rate_limited k = (\<lambda>n req. case req of
       GET \<Rightarrow> Response 200 (Inl ''Expecting value'')
     | POST body \<Rightarrow>
         if n < k then Response 429 (Inl ''Expecting value'')
         else Response 200 (Inr (JObj [(''totalcount'', JInt 1),
                (''results'', JList [JObj [(''cpsonumber'', JStr ''CPSO-1'')]])])))"

definition net_control_character :: network where
  "net_control_character = (\<lambda>n req. case req of
       GET \<Rightarrow> Response 200 (Inl ''Expecting value'')
     | POST body \<Rightarrow>
         Response 200 (Inl ''Invalid control character at: line 1 column 20 (char 19)''))"

text \<open>
  A network whose second request, a \<open>POST\<close>, is answered \<open>429\<close> and whose third cannot
  be decoded because of a control character; every later \<open>POST\<close> is answered.
\<close>

definition net_marker_after_retry :: network where
  "net_marker_after_retry = (\<lambda>n req. case req of
       GET \<Rightarrow> Response 200 (Inl ''Expecting value'')
     | POST body \<Rightarrow>
         if n = 1 then Response 429 (Inl ''Expecting value'')
         else if n = 2 then
           Response 200 (Inl ''Invalid control character at: line 1 column 20 (char 19)'')
         else Response 200 (Inr (JObj [(''totalcount'', JInt 1),
                (''results'', JList [JObj [(''cpsonumber'', JStr ''CPSO-1'')]])])))"

section \<open>Properties\<close>

subsection \<open>Key generation\<close>

lemma VALID_LETTERS_eq: "VALID_LETTERS = ''ABCEGHJKLMNPRSTVWXYZ''"
  by (simp add: VALID_LETTERS_def ascii_uppercase_def)

lemma fold_extend: "fold (\<lambda>p acc. acc @ f p) ps acc0 = acc0 @ concat (map f ps)"
  by (induction ps arbitrary: acc0) simp_all

lemma generate_ldu1_concat:
  "generate_ldu1_permutations ps = concat (map (\<lambda>p. map (\<lambda>d. p @ ''+'' @ [d]) VALID_DIGITS) ps)"
  by (simp add: generate_ldu1_permutations_def fold_extend)

lemma generate_ldu2_concat:
  "generate_ldu2_permutations ps = concat (map (\<lambda>p. map (\<lambda>l. p @ [l]) VALID_LETTERS) ps)"
  by (simp add: generate_ldu2_permutations_def fold_extend)

lemma generate_ldu3_concat:
  "generate_ldu3_permutations ps = concat (map (\<lambda>p. map (\<lambda>d. p @ [d]) VALID_DIGITS) ps)"
  by (simp add: generate_ldu3_permutations_def fold_extend)

text \<open>
  C1 (as amended). Applied to a single key, rank 1 and rank 3 give 10 children and rank 2
  gives 20. A rank-1 child is the key, the separator \<open>+\<close> and one digit, so it is two
  characters longer than its parent; a rank-2 child is the key and one of the 20 letters,
  a rank-3 child the key and one digit, each one character longer. At every rank the
  length without separators grows by one.
\<close>

theorem expand_children:
  "generate_ldu1_permutations [key] = map (\<lambda>d. key @ ''+'' @ [d]) ''0123456789''
   \<and> length (generate_ldu1_permutations [key]) = 10
   \<and> (\<forall>c \<in> set (generate_ldu1_permutations [key]).
         length c = length key + 2 \<and> actual_length c = actual_length key + 1)
   \<and> generate_ldu2_permutations [key] = map (\<lambda>l. key @ [l]) ''ABCEGHJKLMNPRSTVWXYZ''
   \<and> length (generate_ldu2_permutations [key]) = 20
   \<and> (\<forall>c \<in> set (generate_ldu2_permutations [key]).
         length c = length key + 1 \<and> actual_length c = actual_length key + 1)
   \<and> generate_ldu3_permutations [key] = map (\<lambda>d. key @ [d]) ''0123456789''
   \<and> length (generate_ldu3_permutations [key]) = 10
   \<and> (\<forall>c \<in> set (generate_ldu3_permutations [key]).
         length c = length key + 1 \<and> actual_length c = actual_length key + 1)"
  by (simp add: generate_ldu1_concat generate_ldu2_concat generate_ldu3_concat
      VALID_DIGITS_def VALID_LETTERS_eq actual_length_def remove_plus_def)

theorem expand_children_witness:
  "''K1A+0'' \<in> set (generate_ldu1_permutations [''K1A''])
   \<and> length ''K1A+0'' = length ''K1A'' + 2
   \<and> ''K1A+0A'' \<in> set (generate_ldu2_permutations [''K1A+0''])
   \<and> length ''K1A+0A'' = length ''K1A+0'' + 1
   \<and> ''K1A+0A1'' \<in> set (generate_ldu3_permutations [''K1A+0A''])
   \<and> length ''K1A+0A1'' = length ''K1A+0A'' + 1"
  using expand_children [of "''K1A''"] expand_children [of "''K1A+0''"]
    expand_children [of "''K1A+0A''"]
  by simp

text \<open>The rank-1 child of the three-character key \<open>K1A\<close> has five characters, not four.\<close>

theorem rank1_child_length_counterexample:
  "hd (generate_ldu1_permutations [''K1A'']) = ''K1A+0''
   \<and> length (hd (generate_ldu1_permutations [''K1A''])) \<noteq> length ''K1A'' + 1"
  by (simp add: generate_ldu1_concat VALID_DIGITS_def)

subsection \<open>Length filtering in the script\<close>

lemma filter_loop_strings:
  "map code_str pcs = map Some keys \<Longrightarrow>
   filter_loop n pcs acc = Inr (acc @ filter (\<lambda>code. actual_length code = n) keys)"
proof (induction pcs arbitrary: keys acc)
  case Nil
  then show ?case by simp
next
  case (Cons pc pcs)
  then obtain k ks where k: "keys = k # ks" "code_str pc = Some k" "map code_str pcs = map Some ks"
    by (cases keys) auto
  show ?case using Cons.IH [OF k(3)] k by simp
qed

lemma filter_loop_not_a_string:
  "code_str pc = None \<Longrightarrow> map code_str pre = map Some keys \<Longrightarrow>
   filter_loop n (pre @ pc # post) acc = Inl AttributeError"
proof (induction pre arbitrary: keys acc)
  case Nil
  then show ?case by simp
next
  case (Cons p pre)
  then obtain k ks where k: "keys = k # ks" "code_str p = Some k" "map code_str pre = map Some ks"
    by (cases keys) auto
  show ?case using Cons.IH [OF Cons.prems(1) k(3)] k by simp
qed

lemma filter_postal_codes_eq:
  "map code_str pcs = map Some keys \<Longrightarrow>
   filter_postal_codes n pcs = Inr (filter (\<lambda>code. actual_length code = n) keys)"
  using filter_loop_strings [of pcs keys n "[]"] by (simp add: filter_postal_codes_def)

lemma main_script_eq:
  assumes "required_length_map level = Some n" "level_map level = Some name"
    "level \<in> {1, 2, 3}" "map code_str pcs = map Some keys"
  shows "main_script level pcs =
     (if filter (\<lambda>code. actual_length code = n) keys = [] then Inl (SystemExit 1)
      else generate_and_save_permutations (filter (\<lambda>code. actual_length code = n) keys) name)"
proof (cases "pcs = []")
  case True
  then have "keys = []" using assms(4) by simp
  then show ?thesis using True assms(3) by (simp add: main_script_def)
next
  case False
  have f: "filter_postal_codes n pcs = Inr (filter (\<lambda>code. actual_length code = n) keys)"
    using assms(4) by (rule filter_postal_codes_eq)
  show ?thesis
    using False assms(1,2,3) by (simp add: main_script_def f)
qed

lemma lower_ldu [simp]:
  "lower ''ldu1'' = ''ldu1''" "lower ''ldu2'' = ''ldu2''" "lower ''ldu3'' = ''ldu3''"
  by (simp_all add: lower_def lower_char_def ascii_uppercase_def)

lemma main_script_1:
  "map code_str pcs = map Some keys \<Longrightarrow>
   main_script 1 pcs =
     (if filter (\<lambda>code. actual_length code = 3) keys = [] then Inl (SystemExit 1)
      else Inr (''FSA_LDU1.json'',
                generate_ldu1_permutations (filter (\<lambda>code. actual_length code = 3) keys)))"
  by (subst main_script_eq [where n = 3 and name = "''ldu1''" and keys = keys])
    (simp_all add: required_length_map_def level_map_def generate_and_save_permutations_def)

lemma main_script_2:
  "map code_str pcs = map Some keys \<Longrightarrow>
   main_script 2 pcs =
     (if filter (\<lambda>code. actual_length code = 4) keys = [] then Inl (SystemExit 1)
      else Inr (''FSA_LDU2.json'',
                generate_ldu2_permutations (filter (\<lambda>code. actual_length code = 4) keys)))"
  by (subst main_script_eq [where n = 4 and name = "''ldu2''" and keys = keys])
    (simp_all add: required_length_map_def level_map_def generate_and_save_permutations_def)

lemma main_script_3:
  "map code_str pcs = map Some keys \<Longrightarrow>
   main_script 3 pcs =
     (if filter (\<lambda>code. actual_length code = 5) keys = [] then Inl (SystemExit 1)
      else Inr (''FSA_LDU3.json'',
                generate_ldu3_permutations (filter (\<lambda>code. actual_length code = 5) keys)))"
  by (subst main_script_eq [where n = 5 and name = "''ldu3''" and keys = keys])
    (simp_all add: required_length_map_def level_map_def generate_and_save_permutations_def)

lemma code_str_JStr: "map code_str (map (Inl \<circ> JStr) keys) = map Some keys"
  by (induction keys) simp_all

text \<open>
  A key that is not a string stops the script with \<open>AttributeError\<close>, whatever the keys
  after it, when the keys before it are strings.
\<close>

lemma main_script_not_a_string:
  assumes "level \<in> {1, 2, 3}" "code_str pc = None" "map code_str pre = map Some keys"
  shows "main_script level (pre @ pc # post) = Inl AttributeError"
proof -
  have "required_length_map level \<noteq> None" using assms(1) by (auto simp: required_length_map_def)
  then obtain n where n: "required_length_map level = Some n" by blast
  have "filter_postal_codes n (pre @ pc # post) = Inl AttributeError"
    using filter_loop_not_a_string [OF assms(2,3)] by (simp add: filter_postal_codes_def)
  then show ?thesis using assms(1) n by (simp add: main_script_def)
qed

text \<open>
  Two input files whose loaded keys are not all strings: a table with a missing postal
  code, and a list whose object has the count \<open>-1\<close> and no postal code.
\<close>

lemma permutations_script_not_a_string:
  "permutations_script 1 (Csv_file [(''postal_code'', [VStr ''K1A'', VNaN]),
       (''totalcount'', [VInt (- 1), VInt (- 1)])]) = Inl AttributeError"
  "permutations_script 1 (Json_file [JObj [(''totalcount'', JInt (- 1))]]) = Inl AttributeError"
proof -
  show "permutations_script 1 (Csv_file [(''postal_code'', [VStr ''K1A'', VNaN]),
       (''totalcount'', [VInt (- 1), VInt (- 1)])]) = Inl AttributeError"
    by (simp add: permutations_script_def load_postal_codes_def load_postal_codes_csv_def
        main_script_def required_length_map_def filter_postal_codes_def actual_length_def
        remove_plus_def)
  have "load_postal_codes_json [JObj [(''totalcount'', JInt (- 1))]] = [JNull]"
    by (simp add: load_postal_codes_json_def load_loop.simps is_capped_item_def
        item_postal_code_def)
  then show "permutations_script 1 (Json_file [JObj [(''totalcount'', JInt (- 1))]])
      = Inl AttributeError"
    by (simp add: permutations_script_def load_postal_codes_def main_script_def
        required_length_map_def filter_postal_codes_def)
qed

text \<open>
  C3 (as amended). At rank 1, 2, 3 the required input length is 3, 4, 5. When the incoming
  keys are strings, \<open>keys\<close> being their texts, the filtering loop keeps, in order,
  exactly those whose length without \<open>+\<close> characters is the required one. The keys that
  fail are dropped and never expanded: the script behaves on the whole key list as it does
  on the kept keys alone, and what it writes is the expansion of the kept keys. When at
  least one key is kept the run goes on to the generation; when none is kept it ends with
  exit status 1.
\<close>

theorem length_filter_keeps_matching_keys:
  assumes "level \<in> {1, 2, 3}" "map code_str pcs = map Some keys"
  shows "required_length_map level = Some (level + 2)
    \<and> filter_postal_codes (level + 2) pcs
        = Inr (filter (\<lambda>code. length (filter (\<lambda>c. c \<noteq> CHR ''+'') code) = level + 2) keys)
    \<and> main_script level pcs
        = main_script level
            (map (Inl \<circ> JStr) (filter (\<lambda>code. actual_length code = level + 2) keys))
    \<and> (filter (\<lambda>code. actual_length code = level + 2) keys \<noteq> [] \<longrightarrow>
         main_script level pcs =
           Inr (if level = 1 then (''FSA_LDU1.json'',
                     generate_ldu1_permutations (filter (\<lambda>code. actual_length code = 3) keys))
                else if level = 2 then (''FSA_LDU2.json'',
                     generate_ldu2_permutations (filter (\<lambda>code. actual_length code = 4) keys))
                else (''FSA_LDU3.json'',
                     generate_ldu3_permutations (filter (\<lambda>code. actual_length code = 5) keys))))
    \<and> (filter (\<lambda>code. actual_length code = level + 2) keys = [] \<longrightarrow>
         main_script level pcs = Inl (SystemExit 1))"
proof -
  have b: "filter_postal_codes (level + 2) pcs
        = Inr (filter (\<lambda>code. length (filter (\<lambda>c. c \<noteq> CHR ''+'') code) = level + 2) keys)"
    using filter_postal_codes_eq [OF assms(2), of "level + 2"]
    by (simp add: actual_length_def remove_plus_def)
  consider "level = 1" | "level = 2" | "level = 3" using assms(1) by auto
  then have rest: "required_length_map level = Some (level + 2)
    \<and> main_script level pcs
        = main_script level
            (map (Inl \<circ> JStr) (filter (\<lambda>code. actual_length code = level + 2) keys))
    \<and> (filter (\<lambda>code. actual_length code = level + 2) keys \<noteq> [] \<longrightarrow>
         main_script level pcs =
           Inr (if level = 1 then (''FSA_LDU1.json'',
                     generate_ldu1_permutations (filter (\<lambda>code. actual_length code = 3) keys))
                else if level = 2 then (''FSA_LDU2.json'',
                     generate_ldu2_permutations (filter (\<lambda>code. actual_length code = 4) keys))
                else (''FSA_LDU3.json'',
                     generate_ldu3_permutations (filter (\<lambda>code. actual_length code = 5) keys))))
    \<and> (filter (\<lambda>code. actual_length code = level + 2) keys = [] \<longrightarrow>
         main_script level pcs = Inl (SystemExit 1))"
  proof cases
    case 1
    have n: "level + 2 = 3" using 1 by simp
    have m: "required_length_map 1 = Some 3" by (simp add: required_length_map_def)
    show ?thesis unfolding n unfolding 1 using m
      by (simp add: main_script_1 [OF assms(2), unfolded One_nat_def]
          main_script_1 [OF code_str_JStr, unfolded One_nat_def])
  next
    case 2
    have n: "level + 2 = 4" using 2 by simp
    have m: "required_length_map 2 = Some 4" by (simp add: required_length_map_def)
    show ?thesis unfolding n unfolding 2 using m
      by (simp add: main_script_2 [OF assms(2)] main_script_2 [OF code_str_JStr])
  next
    case 3
    have n: "level + 2 = 5" using 3 by simp
    have m: "required_length_map 3 = Some 5" by (simp add: required_length_map_def)
    show ?thesis unfolding n unfolding 3 using m
      by (simp add: main_script_3 [OF assms(2)] main_script_3 [OF code_str_JStr])
  qed
  show ?thesis using b rest by blast
qed

theorem length_filter_keeps_matching_keys_witness:
  "(2::nat) \<in> {1, 2, 3}
   \<and> map code_str [Inl (JStr ''K1A+0''), Inr (VStr ''K1A''), Inl (JStr ''K1B+7''),
                    Inr (VStr ''K1A+0A'')]
      = map Some [''K1A+0'', ''K1A'', ''K1B+7'', ''K1A+0A'']
   \<and> filter_postal_codes 4 [Inl (JStr ''K1A+0''), Inr (VStr ''K1A''), Inl (JStr ''K1B+7''),
                             Inr (VStr ''K1A+0A'')]
      = Inr [''K1A+0'', ''K1B+7'']
   \<and> main_script 2 [Inl (JStr ''K1A+0''), Inr (VStr ''K1A''), Inl (JStr ''K1B+7''),
                     Inr (VStr ''K1A+0A'')]
      = Inr (''FSA_LDU2.json'', generate_ldu2_permutations [''K1A+0'', ''K1B+7''])"
proof -
  let ?pcs = "[Inl (JStr ''K1A+0''), Inr (VStr ''K1A''), Inl (JStr ''K1B+7''),
               Inr (VStr ''K1A+0A'')]"
  let ?keys = "[''K1A+0'', ''K1A'', ''K1B+7'', ''K1A+0A'']"
  have h: "(2::nat) \<in> {1, 2, 3}" by simp
  have s: "map code_str ?pcs = map Some ?keys" by simp
  have f1: "filter (\<lambda>code. length (filter (\<lambda>c. c \<noteq> CHR ''+'') code) = 4) ?keys
      = [''K1A+0'', ''K1B+7'']" by simp
  have f2: "filter (\<lambda>code. actual_length code = 4) ?keys = [''K1A+0'', ''K1B+7'']"
    by (simp add: actual_length_def remove_plus_def)
  have n: "(2::nat) + 2 = 4" by simp
  note t = length_filter_keeps_matching_keys [OF h s, unfolded n]
  have k: "filter_postal_codes 4 ?pcs = Inr [''K1A+0'', ''K1B+7'']"
    using t [THEN conjunct2, THEN conjunct1] f1 by simp
  have r: "main_script 2 ?pcs
       = Inr (''FSA_LDU2.json'', generate_ldu2_permutations [''K1A+0'', ''K1B+7''])"
    using t [THEN conjunct2, THEN conjunct2, THEN conjunct2, THEN conjunct1] f2 by simp
  show ?thesis using h s k r by blast
qed

text \<open>
  At rank 1 the only incoming key is \<open>K1A+0\<close>, of length 4 without its separator. It is
  dropped, no key is kept, and the run ends with exit status 1 before any generation.
\<close>

theorem no_key_kept_counterexample:
  "filter_postal_codes 3 [Inl (JStr ''K1A+0'')] = Inr []
   \<and> main_script 1 [Inl (JStr ''K1A+0'')] = Inl (SystemExit 1)"
  by (simp add: main_script_def filter_postal_codes_def required_length_map_def
      actual_length_def remove_plus_def)

subsection \<open>Phone formatting\<close>

lemma take3_take3_drop6: "take 3 ds @ take 3 (drop 3 ds) @ drop 6 ds = ds"
proof -
  have "take 3 (drop 3 ds) @ drop 6 ds = drop 3 ds"
    using append_take_drop_id [of 3 "drop 3 ds"] by simp
  then show ?thesis by simp
qed

lemma filter_digits_formatted:
  assumes "\<forall>c \<in> set ds. is_digit c"
  shows "filter is_digit (''('' @ take 3 ds @ '') '' @ take 3 (drop 3 ds) @ ''-'' @ drop 6 ds) = ds"
proof -
  have a: "filter is_digit (take 3 ds) = take 3 ds"
    using assms by (auto simp: filter_id_conv dest: in_set_takeD)
  have b: "filter is_digit (take 3 (drop 3 ds)) = take 3 (drop 3 ds)"
    using assms by (auto simp: filter_id_conv dest!: in_set_takeD in_set_dropD)
  have c: "filter is_digit (drop 6 ds) = drop 6 ds"
    using assms by (auto simp: filter_id_conv dest: in_set_dropD)
  have e: "\<not> is_digit CHR ''(''" "\<not> is_digit CHR '')''" "\<not> is_digit CHR '' ''"
    "\<not> is_digit CHR ''-''"
    by (simp_all add: is_digit_def)
  show ?thesis using a b c e take3_take3_drop6 [of ds] by simp
qed

lemma format_phone_fixpoint:
  assumes "format_phone s = Some r"
  shows "format_phone r = Some r"
proof -
  define ds where "ds = filter is_digit s"
  from assms have l: "length ds = 10"
    and r: "r = ''('' @ take 3 ds @ '') '' @ take 3 (drop 3 ds) @ ''-'' @ drop 6 ds"
    by (auto simp: format_phone_def ds_def Let_def split: if_splits)
  have "\<forall>c \<in> set ds. is_digit c" by (simp add: ds_def)
  then have "filter is_digit r = ds" unfolding r by (rule filter_digits_formatted)
  then show ?thesis using l r by (simp add: format_phone_def)
qed

text \<open>
  C6. \<open>format_phone\<close> looks only at the digits of its input. When these are exactly ten
  digits \<open>d0 \<dots> d9\<close> the result is \<open>(d0d1d2) d3d4d5-d6d7d8d9\<close>; with any other number of
  digits the result is the marker \<open>None\<close>, never the input. A successful output is
  mapped to itself. The three examples of the specification hold.
\<close>

theorem format_phone_spec:
  "(filter is_digit s = [d0, d1, d2, d3, d4, d5, d6, d7, d8, d9] \<longrightarrow>
      format_phone s = Some [CHR ''('', d0, d1, d2, CHR '')'', CHR '' '', d3, d4, d5,
                             CHR ''-'', d6, d7, d8, d9])
   \<and> (length (filter is_digit s) \<noteq> 10 \<longrightarrow> format_phone s = None)
   \<and> (format_phone s = Some r \<longrightarrow> format_phone r = Some r)
   \<and> format_phone ''416-555-1234'' = Some ''(416) 555-1234''
   \<and> format_phone ''12345'' = None
   \<and> format_phone ''(416) 555-1234'' = Some ''(416) 555-1234''"
proof -
  have a: "filter is_digit s = [d0, d1, d2, d3, d4, d5, d6, d7, d8, d9] \<longrightarrow>
      format_phone s = Some [CHR ''('', d0, d1, d2, CHR '')'', CHR '' '', d3, d4, d5,
                             CHR ''-'', d6, d7, d8, d9]"
    by (simp add: format_phone_def)
  have b: "length (filter is_digit s) \<noteq> 10 \<longrightarrow> format_phone s = None"
    by (simp add: format_phone_def)
  have c: "format_phone s = Some r \<longrightarrow> format_phone r = Some r"
    using format_phone_fixpoint by blast
  have d: "format_phone ''416-555-1234'' = Some ''(416) 555-1234''"
    by (simp add: format_phone_def is_digit_def)
  have e: "format_phone ''12345'' = None"
    by (simp add: format_phone_def is_digit_def)
  have f: "format_phone ''(416) 555-1234'' = Some ''(416) 555-1234''"
    by (simp add: format_phone_def is_digit_def)
  show ?thesis using a b c d e f by blast
qed

theorem format_phone_spec_witness:
  "filter is_digit ''+1 (613) 555 0199 ext'' \<noteq> []
   \<and> length (filter is_digit ''+1 (613) 555 0199 ext'') \<noteq> 10
   \<and> format_phone ''+1 (613) 555 0199 ext'' = None
   \<and> filter is_digit ''613.555.0199'' = ''6135550199''
   \<and> format_phone ''613.555.0199'' = Some ''(613) 555-0199''
   \<and> format_phone ''(613) 555-0199'' = Some ''(613) 555-0199''"
proof -
  have d: "filter is_digit ''613.555.0199'' = ''6135550199''"
    by (simp add: is_digit_def)
  have n: "length (filter is_digit ''+1 (613) 555 0199 ext'') \<noteq> 10"
    by (simp add: is_digit_def)
  have p: "format_phone ''613.555.0199'' = Some ''(613) 555-0199''"
    using d format_phone_spec [of "''613.555.0199''" "CHR ''6''" "CHR ''1''" "CHR ''3''"
        "CHR ''5''" "CHR ''5''" "CHR ''5''" "CHR ''0''" "CHR ''1''" "CHR ''9''" "CHR ''9''"]
    by simp
  have q: "format_phone ''(613) 555-0199'' = Some ''(613) 555-0199''"
    using p format_phone_spec [of "''613.555.0199''" _ _ _ _ _ _ _ _ _ _ "''(613) 555-0199''"]
    by blast
  have m: "format_phone ''+1 (613) 555 0199 ext'' = None"
    using n format_phone_spec [of "''+1 (613) 555 0199 ext''"] by blast
  have e: "filter is_digit ''+1 (613) 555 0199 ext'' \<noteq> []"
    by (simp add: is_digit_def)
  show ?thesis using d n p q m e by blast
qed

subsection \<open>The JSON loader\<close>

lemma load_loop_step:
  "i < length data \<Longrightarrow> load_loop i data b =
     (if is_capped_item (data ! i) then
        (case b of
           Own l \<Rightarrow> load_loop (Suc i) data (Own (l @ [item_postal_code (data ! i)]))
         | Data \<Rightarrow> load_loop (Suc i) (data @ [item_postal_code (data ! i)]) Data)
      else load_loop (Suc i) data Data)"
  by (subst load_loop.simps) (simp add: Let_def split: binding.splits)

lemma load_loop_end:
  "length data \<le> i \<Longrightarrow> load_loop i data b = (case b of Own l \<Rightarrow> l | Data \<Rightarrow> data)"
  by (subst load_loop.simps) simp

lemma load_loop_Own_all:
  "\<forall>x \<in> set (drop i data). is_capped_item x \<Longrightarrow>
   load_loop i data (Own l) = l @ map item_postal_code (drop i data)"
proof (induction "length data - i" arbitrary: i l)
  case 0
  then show ?case by (simp add: load_loop_end)
next
  case (Suc n)
  then have lt: "i < length data" by simp
  then have d: "drop i data = data ! i # drop (Suc i) data" by (simp add: Cons_nth_drop_Suc)
  have c: "is_capped_item (data ! i)" using Suc.prems d by simp
  have r: "\<forall>x \<in> set (drop (Suc i) data). is_capped_item x" using Suc.prems d by simp
  have "n = length data - Suc i" using Suc.hyps(2) by simp
  from Suc.hyps(1) [OF this r] show ?case
    using lt c d by (simp add: load_loop_step)
qed

lemma load_loop_Own_first:
  "\<forall>x \<in> set (take n (drop i data)). is_capped_item x \<Longrightarrow> i + n < length data \<Longrightarrow>
   \<not> is_capped_item (data ! (i + n)) \<Longrightarrow>
   load_loop i data (Own l) = load_loop (Suc (i + n)) data Data"
proof (induction n arbitrary: i l)
  case 0
  then show ?case by (simp add: load_loop_step)
next
  case (Suc n)
  then have lt: "i < length data" by simp
  then have d: "drop i data = data ! i # drop (Suc i) data" by (simp add: Cons_nth_drop_Suc)
  have c: "is_capped_item (data ! i)" using Suc.prems(1) d by simp
  have r: "\<forall>x \<in> set (take n (drop (Suc i) data)). is_capped_item x"
    using Suc.prems(1) d by simp
  from Suc.IH [OF r, of "l @ [item_postal_code (data ! i)]"] Suc.prems(2,3) show ?case
    using lt c by (simp add: load_loop_step)
qed

lemma load_loop_Data_fix:
  "b = Data \<Longrightarrow> R = load_loop i data b \<Longrightarrow>
   take (length data) R = data
   \<and> drop (length data) R = map item_postal_code (filter is_capped_item (drop i R))"
proof (induction i data b arbitrary: R rule: load_loop.induct)
  case (1 i data b)
  note b = \<open>b = Data\<close>
  show ?case
  proof (cases "i < length data")
    case False
    then have "R = data" using 1(5) b by (simp add: load_loop_end)
    then show ?thesis using False by simp
  next
    case True
    show ?thesis
    proof (cases "is_capped_item (data ! i)")
      case c: True
      define data' where "data' = data @ [item_postal_code (data ! i)]"
      have R: "R = load_loop (i + 1) data' Data"
        using 1(5) True c b by (simp add: load_loop_step data'_def)
      have ih: "take (length data') R = data' \<and>
        drop (length data') R = map item_postal_code (filter is_capped_item (drop (i + 1) R))"
        using "1.IH"(2) [OF True refl c b refl] R by (simp add: data'_def)
      have pre': "take (Suc (length data)) R = data @ [item_postal_code (data ! i)]"
        using ih by (simp add: data'_def)
      have l1: "length data < length R"
      proof (rule ccontr)
        assume "\<not> length data < length R"
        then have "length (take (Suc (length data)) R) \<le> length data" by simp
        then show False using pre' by simp
      qed
      have pre: "take (length data) R = data"
        using pre' l1 by (simp add: take_Suc_conv_app_nth)
      have Rn: "R ! length data = item_postal_code (data ! i)"
        using pre' l1 by (simp add: take_Suc_conv_app_nth)
      have Ri: "R ! i = data ! i" using pre True by (metis nth_take)
      have "drop (length data) R = R ! length data # drop (length data') R"
        using l1 by (simp add: Cons_nth_drop_Suc data'_def)
      moreover have "drop i R = R ! i # drop (i + 1) R"
        using l1 True by (simp add: Cons_nth_drop_Suc)
      ultimately show ?thesis using pre ih Ri Rn c by simp
    next
      case nc: False
      have R: "R = load_loop (i + 1) data Data"
        using 1(5) True nc b by (simp add: load_loop_step)
      have ih: "take (length data) R = data \<and>
        drop (length data) R = map item_postal_code (filter is_capped_item (drop (i + 1) R))"
        using "1.IH"(3) [OF True refl nc refl] R by simp
      have l1: "i < length R" using ih True by (metis length_take min_less_iff_conj)
      have Ri: "R ! i = data ! i" using ih True by (metis nth_take)
      have "drop i R = R ! i # drop (i + 1) R"
        using l1 by (simp add: Cons_nth_drop_Suc)
      then show ?thesis using ih Ri nc by simp
    qed
  qed
qed

lemma load_loop_Data_simple:
  "b = Data \<Longrightarrow>
   \<forall>x \<in> set (drop i data). is_capped_item x \<longrightarrow> \<not> is_capped_item (item_postal_code x) \<Longrightarrow>
   load_loop i data b = data @ map item_postal_code (filter is_capped_item (drop i data))"
proof (induction i data b rule: load_loop.induct)
  case (1 i data b)
  note b = \<open>b = Data\<close>
  show ?case
  proof (cases "i < length data")
    case False
    then show ?thesis using b by (simp add: load_loop_end)
  next
    case True
    then have d: "drop i data = data ! i # drop (Suc i) data" by (simp add: Cons_nth_drop_Suc)
    show ?thesis
    proof (cases "is_capped_item (data ! i)")
      case c: True
      then have nc: "\<not> is_capped_item (item_postal_code (data ! i))" using 1(5) d by simp
      have h: "\<forall>x \<in> set (drop (i + 1) (data @ [item_postal_code (data ! i)])).
           is_capped_item x \<longrightarrow> \<not> is_capped_item (item_postal_code x)"
        using 1(5) d nc True by auto
      from "1.IH"(2) [OF True refl c b refl h] show ?thesis
        using True c d nc b by (simp add: load_loop_step)
    next
      case nc: False
      have h: "\<forall>x \<in> set (drop (i + 1) data).
           is_capped_item x \<longrightarrow> \<not> is_capped_item (item_postal_code x)"
        using 1(5) d by simp
      from "1.IH"(3) [OF True refl nc refl h] show ?thesis
        using True nc d b by (simp add: load_loop_step)
    qed
  qed
qed

lemma load_after_first_other:
  assumes "\<forall>y \<in> set pre. is_capped_item y" "\<not> is_capped_item x"
  shows "load_postal_codes_json (pre @ x # post)
     = load_loop (Suc (length pre)) (pre @ x # post) Data"
proof -
  have "load_loop 0 (pre @ x # post) (Own [])
      = load_loop (Suc (0 + length pre)) (pre @ x # post) Data"
    using assms by (intro load_loop_Own_first) simp_all
  then show ?thesis by (simp add: load_postal_codes_json_def)
qed

text \<open>
  C10. When every element of the input list is an object whose \<open>totalcount\<close> is \<open>-1\<close>, the
  loader returns their \<open>postal_code\<close> values in order. When some element \<open>x\<close> is not such
  an object, \<open>pre\<close> being the elements before the first one, the returned list starts
  with the whole input list, and what follows it is the \<open>postal_code\<close> of each capped
  object that stands after \<open>x\<close> in the returned list. When no such \<open>postal_code\<close> is itself
  a capped object, as for text, the returned list is the input list followed by the
  \<open>postal_code\<close> of each capped object of \<open>post\<close>.
\<close>

theorem load_postal_codes_json_bypass:
  "((\<forall>y \<in> set data. is_capped_item y) \<longrightarrow>
      load_postal_codes_json data = map item_postal_code data)
   \<and> ((\<forall>y \<in> set pre. is_capped_item y) \<and> \<not> is_capped_item x \<longrightarrow>
        take (length (pre @ x # post)) (load_postal_codes_json (pre @ x # post)) = pre @ x # post
        \<and> drop (length (pre @ x # post)) (load_postal_codes_json (pre @ x # post))
            = map item_postal_code (filter is_capped_item
                (drop (Suc (length pre)) (load_postal_codes_json (pre @ x # post))))
        \<and> ((\<forall>y \<in> set post. is_capped_item y \<longrightarrow> \<not> is_capped_item (item_postal_code y)) \<longrightarrow>
             load_postal_codes_json (pre @ x # post)
               = (pre @ x # post) @ map item_postal_code (filter is_capped_item post)))"
proof -
  have a: "(\<forall>y \<in> set data. is_capped_item y) \<longrightarrow>
      load_postal_codes_json data = map item_postal_code data"
    using load_loop_Own_all [of 0 data "[]"] by (simp add: load_postal_codes_json_def)
  have b: "(\<forall>y \<in> set pre. is_capped_item y) \<and> \<not> is_capped_item x \<longrightarrow>
        take (length (pre @ x # post)) (load_postal_codes_json (pre @ x # post)) = pre @ x # post
        \<and> drop (length (pre @ x # post)) (load_postal_codes_json (pre @ x # post))
            = map item_postal_code (filter is_capped_item
                (drop (Suc (length pre)) (load_postal_codes_json (pre @ x # post))))"
  proof
    assume h: "(\<forall>y \<in> set pre. is_capped_item y) \<and> \<not> is_capped_item x"
    then have e: "load_postal_codes_json (pre @ x # post)
        = load_loop (Suc (length pre)) (pre @ x # post) Data"
      by (simp add: load_after_first_other)
    show "take (length (pre @ x # post)) (load_postal_codes_json (pre @ x # post)) = pre @ x # post
        \<and> drop (length (pre @ x # post)) (load_postal_codes_json (pre @ x # post))
            = map item_postal_code (filter is_capped_item
                (drop (Suc (length pre)) (load_postal_codes_json (pre @ x # post))))"
      by (rule load_loop_Data_fix [OF refl e])
  qed
  have c: "(\<forall>y \<in> set pre. is_capped_item y) \<and> \<not> is_capped_item x \<longrightarrow>
     (\<forall>y \<in> set post. is_capped_item y \<longrightarrow> \<not> is_capped_item (item_postal_code y)) \<longrightarrow>
             load_postal_codes_json (pre @ x # post)
               = (pre @ x # post) @ map item_postal_code (filter is_capped_item post)"
  proof (intro impI)
    assume h: "(\<forall>y \<in> set pre. is_capped_item y) \<and> \<not> is_capped_item x"
      and p: "\<forall>y \<in> set post. is_capped_item y \<longrightarrow> \<not> is_capped_item (item_postal_code y)"
    have e: "load_postal_codes_json (pre @ x # post)
        = load_loop (Suc (length pre)) (pre @ x # post) Data"
      using h by (simp add: load_after_first_other)
    have "load_loop (Suc (length pre)) (pre @ x # post) Data
        = (pre @ x # post) @ map item_postal_code
            (filter is_capped_item (drop (Suc (length pre)) (pre @ x # post)))"
      using p by (intro load_loop_Data_simple) simp_all
    then show "load_postal_codes_json (pre @ x # post)
               = (pre @ x # post) @ map item_postal_code (filter is_capped_item post)"
      using e by simp
  qed
  show ?thesis using a b c by blast
qed

theorem load_postal_codes_json_bypass_witness:
  "load_postal_codes_json
      [JObj [(''postal_code'', JStr ''K1A+0''), (''totalcount'', JInt (- 1))],
       JObj [(''postal_code'', JStr ''K1A+1''), (''totalcount'', JInt (- 1))]]
     = [JStr ''K1A+0'', JStr ''K1A+1'']
   \<and> load_postal_codes_json
      [JObj [(''postal_code'', JStr ''K1A+0''), (''totalcount'', JInt (- 1))],
       JObj [(''postal_code'', JStr ''K1A+1''), (''totalcount'', JInt 12)],
       JObj [(''postal_code'', JStr ''K1A+2''), (''totalcount'', JInt (- 1))]]
     = [JObj [(''postal_code'', JStr ''K1A+0''), (''totalcount'', JInt (- 1))],
        JObj [(''postal_code'', JStr ''K1A+1''), (''totalcount'', JInt 12)],
        JObj [(''postal_code'', JStr ''K1A+2''), (''totalcount'', JInt (- 1))],
        JStr ''K1A+2'']"
  using
    load_postal_codes_json_bypass
      [of "[JObj [(''postal_code'', JStr ''K1A+0''), (''totalcount'', JInt (- 1))],
            JObj [(''postal_code'', JStr ''K1A+1''), (''totalcount'', JInt (- 1))]]"
          "[]" JNull "[]"]
    load_postal_codes_json_bypass
      [of "[]" "[JObj [(''postal_code'', JStr ''K1A+0''), (''totalcount'', JInt (- 1))]]"
          "JObj [(''postal_code'', JStr ''K1A+1''), (''totalcount'', JInt 12)]"
          "[JObj [(''postal_code'', JStr ''K1A+2''), (''totalcount'', JInt (- 1))]]"]
  by (simp add: is_capped_item_def item_postal_code_def)

subsection \<open>Capped rows and the loader\<close>

lemma fold_read_files:
  "fold (\<lambda>data (summary_rows, detail_rows).
           (summary_rows @ [summary_of data],
            if rf_results data \<noteq> [] then detail_rows @ rf_results data else detail_rows))
        files (s0, d0)
   = (s0 @ map summary_of files, d0 @ concat (map rf_results files))"
  by (induction files arbitrary: s0 d0) simp_all

lemma read_files_eq:
  "read_files files = (map summary_of files, concat (map rf_results files))"
  using fold_read_files [of files "[]" "[]"] by (simp add: read_files_def)

lemma process_data_eq:
  "process_data null_is_missing files =
     (if files = [] then None
      else Some \<lparr>summary_csv = map summary_of files,
                 capped = summary_df_capped (map summary_of files),
                 details_csv = detail_table null_is_missing (concat (map rf_results files))\<rparr>)"
  by (simp add: process_data_def read_files_eq)

lemma JStr_not_capped: "\<not> is_capped_item (JStr s)"
  by (simp add: is_capped_item_def)

lemma load_json_plain_keys: "load_postal_codes_json (map JStr keys) = map JStr keys"
proof (cases keys)
  case Nil
  then show ?thesis by (simp add: load_postal_codes_json_def load_loop_end)
next
  case (Cons k ks)
  have "load_postal_codes_json ([] @ JStr k # map JStr ks)
      = load_loop (Suc (length ([] :: json list))) ([] @ JStr k # map JStr ks) Data"
    by (rule load_after_first_other) (simp_all add: JStr_not_capped)
  moreover have "load_loop (Suc 0) (JStr k # map JStr ks) Data
      = (JStr k # map JStr ks) @ map item_postal_code
          (filter is_capped_item (drop (Suc 0) (JStr k # map JStr ks)))"
    by (rule load_loop_Data_simple) (auto simp: JStr_not_capped)
  moreover have "filter is_capped_item (map JStr ks) = []"
    by (induction ks) (simp_all add: JStr_not_capped)
  ultimately show ?thesis using Cons by simp
qed

text \<open>
  C2 (as amended). The summary table of \<open>process_data\<close> has one row per raw file. A summary
  row is in the capped set exactly when it is a row of the table, its count is \<open>-1\<close> and
  its postal code, as printed with its separator, has seven characters; a row with a count
  of zero or more is never in it, which is what being complete means here. The loader
  returns, in order, the postal codes of exactly the rows whose count is \<open>-1\<close> on a CSV
  table that has the columns \<open>postal_code\<close> and \<open>totalcount\<close>, and on a JSON list whose
  every element is an object with the count \<open>-1\<close>. On a CSV table with a \<open>postal_code\<close>
  column and no \<open>totalcount\<close> column it returns every postal code, and a JSON list of
  plain keys it returns as it is.
\<close>

theorem capped_iff_sentinel_and_length_seven:
  "(process_data null_is_missing files = Some out \<longrightarrow>
      summary_csv out = map summary_of files
      \<and> (r \<in> set (capped out) \<longleftrightarrow>
           r \<in> set (summary_csv out) \<and> sr_totalcount r = - 1 \<and> length (sr_postal_code r) = 7)
      \<and> (0 \<le> sr_totalcount r \<longrightarrow> r \<notin> set (capped out)))
   \<and> (map_of df ''postal_code'' = Some pcs \<and> map_of df ''totalcount'' = Some tcs \<longrightarrow>
        load_postal_codes (Csv_file df)
          = map Inr (map fst (filter (\<lambda>(p, t). t = VInt (- 1)) (zip pcs tcs))))
   \<and> (map_of df ''postal_code'' = Some pcs \<and> map_of df ''totalcount'' = None \<longrightarrow>
        load_postal_codes (Csv_file df) = map Inr pcs)
   \<and> ((\<forall>y \<in> set data. is_capped_item y) \<longrightarrow>
        load_postal_codes (Json_file data) = map (Inl \<circ> item_postal_code) data)
   \<and> load_postal_codes (Json_file (map JStr keys)) = map (Inl \<circ> JStr) keys"
proof -
  have a: "process_data null_is_missing files = Some out \<longrightarrow>
      summary_csv out = map summary_of files
      \<and> (r \<in> set (capped out) \<longleftrightarrow>
           r \<in> set (summary_csv out) \<and> sr_totalcount r = - 1 \<and> length (sr_postal_code r) = 7)
      \<and> (0 \<le> sr_totalcount r \<longrightarrow> r \<notin> set (capped out))"
    by (auto simp: process_data_eq summary_df_capped_def split: if_splits)
  have b: "map_of df ''postal_code'' = Some pcs \<and> map_of df ''totalcount'' = Some tcs \<longrightarrow>
        load_postal_codes (Csv_file df)
          = map Inr (map fst (filter (\<lambda>(p, t). t = VInt (- 1)) (zip pcs tcs)))"
    by (simp add: load_postal_codes_def load_postal_codes_csv_def)
  have c: "map_of df ''postal_code'' = Some pcs \<and> map_of df ''totalcount'' = None \<longrightarrow>
        load_postal_codes (Csv_file df) = map Inr pcs"
    by (simp add: load_postal_codes_def load_postal_codes_csv_def)
  have d: "(\<forall>y \<in> set data. is_capped_item y) \<longrightarrow>
        load_postal_codes (Json_file data) = map (Inl \<circ> item_postal_code) data"
    using load_loop_Own_all [of 0 data "[]"]
    by (simp add: load_postal_codes_def load_postal_codes_json_def)
  have e: "load_postal_codes (Json_file (map JStr keys)) = map (Inl \<circ> JStr) keys"
    by (simp add: load_postal_codes_def load_json_plain_keys)
  show ?thesis using a b c d e by blast
qed

lemma process_three_files:
  "process_data null_is_missing
     [\<lparr>rf_postal_code = Some ''K1A+0'', rf_totalcount = Some (- 1), rf_results = []\<rparr>,
      \<lparr>rf_postal_code = Some ''K1A+0A1'', rf_totalcount = Some (- 1), rf_results = []\<rparr>,
      \<lparr>rf_postal_code = Some ''K1A+0A2'', rf_totalcount = Some 4, rf_results = []\<rparr>]
   = Some \<lparr>summary_csv = [\<lparr>sr_postal_code = ''K1A+0'', sr_totalcount = - 1\<rparr>,
                           \<lparr>sr_postal_code = ''K1A+0A1'', sr_totalcount = - 1\<rparr>,
                           \<lparr>sr_postal_code = ''K1A+0A2'', sr_totalcount = 4\<rparr>],
            capped = [\<lparr>sr_postal_code = ''K1A+0A1'', sr_totalcount = - 1\<rparr>],
            details_csv = []\<rparr>"
  by (simp add: process_data_eq summary_of_def summary_df_capped_def detail_table_def)

theorem capped_iff_sentinel_and_length_seven_witness:
  "process_data True
     [\<lparr>rf_postal_code = Some ''K1A+0'', rf_totalcount = Some (- 1), rf_results = []\<rparr>,
      \<lparr>rf_postal_code = Some ''K1A+0A1'', rf_totalcount = Some (- 1), rf_results = []\<rparr>,
      \<lparr>rf_postal_code = Some ''K1A+0A2'', rf_totalcount = Some 4, rf_results = []\<rparr>]
   = Some \<lparr>summary_csv = [\<lparr>sr_postal_code = ''K1A+0'', sr_totalcount = - 1\<rparr>,
                           \<lparr>sr_postal_code = ''K1A+0A1'', sr_totalcount = - 1\<rparr>,
                           \<lparr>sr_postal_code = ''K1A+0A2'', sr_totalcount = 4\<rparr>],
            capped = [\<lparr>sr_postal_code = ''K1A+0A1'', sr_totalcount = - 1\<rparr>],
            details_csv = []\<rparr>
   \<and> \<lparr>sr_postal_code = ''K1A+0A2'', sr_totalcount = 4\<rparr>
      \<notin> set (capped \<lparr>summary_csv = [\<lparr>sr_postal_code = ''K1A+0'', sr_totalcount = - 1\<rparr>,
                           \<lparr>sr_postal_code = ''K1A+0A1'', sr_totalcount = - 1\<rparr>,
                           \<lparr>sr_postal_code = ''K1A+0A2'', sr_totalcount = 4\<rparr>],
            capped = [\<lparr>sr_postal_code = ''K1A+0A1'', sr_totalcount = - 1\<rparr>],
            details_csv = []\<rparr>)
   \<and> load_postal_codes (Csv_file
        [(''postal_code'', [VStr ''K1A+0'', VStr ''K1A+1'', VStr ''K1A+2'']),
         (''totalcount'', [VInt (- 1), VInt 7, VInt (- 1)])])
      = [Inr (VStr ''K1A+0''), Inr (VStr ''K1A+2'')]
   \<and> load_postal_codes (Csv_file [(''postal_code'', [VStr ''K1A+0'', VStr ''K1A+1''])])
      = [Inr (VStr ''K1A+0''), Inr (VStr ''K1A+1'')]
   \<and> load_postal_codes (Json_file
        [JObj [(''postal_code'', JStr ''K1A+0''), (''totalcount'', JInt (- 1))],
         JObj [(''postal_code'', JStr ''K1A+1''), (''totalcount'', JInt (- 1))]])
      = [Inl (JStr ''K1A+0''), Inl (JStr ''K1A+1'')]"
proof -
  let ?files = "[\<lparr>rf_postal_code = Some ''K1A+0'', rf_totalcount = Some (- 1), rf_results = []\<rparr>,
      \<lparr>rf_postal_code = Some ''K1A+0A1'', rf_totalcount = Some (- 1), rf_results = []\<rparr>,
      \<lparr>rf_postal_code = Some ''K1A+0A2'', rf_totalcount = Some 4, rf_results = []\<rparr>]"
  let ?out = "\<lparr>summary_csv = [\<lparr>sr_postal_code = ''K1A+0'', sr_totalcount = - 1\<rparr>,
                           \<lparr>sr_postal_code = ''K1A+0A1'', sr_totalcount = - 1\<rparr>,
                           \<lparr>sr_postal_code = ''K1A+0A2'', sr_totalcount = 4\<rparr>],
            capped = [\<lparr>sr_postal_code = ''K1A+0A1'', sr_totalcount = - 1\<rparr>],
            details_csv = []\<rparr>"
  let ?df = "[(''postal_code'', [VStr ''K1A+0'', VStr ''K1A+1'', VStr ''K1A+2'']),
         (''totalcount'', [VInt (- 1), VInt 7, VInt (- 1)])]"
  let ?df2 = "[(''postal_code'', [VStr ''K1A+0'', VStr ''K1A+1''])]"
  let ?data = "[JObj [(''postal_code'', JStr ''K1A+0''), (''totalcount'', JInt (- 1))],
         JObj [(''postal_code'', JStr ''K1A+1''), (''totalcount'', JInt (- 1))]]"
  have p: "process_data True ?files = Some ?out" by (rule process_three_files)
  have h: "map_of ?df ''postal_code'' = Some [VStr ''K1A+0'', VStr ''K1A+1'', VStr ''K1A+2'']
      \<and> map_of ?df ''totalcount'' = Some [VInt (- 1), VInt 7, VInt (- 1)]"
    by simp
  have h2: "map_of ?df2 ''postal_code'' = Some [VStr ''K1A+0'', VStr ''K1A+1'']
      \<and> map_of ?df2 ''totalcount'' = None"
    by simp
  have h3: "\<forall>y \<in> set ?data. is_capped_item y" by (simp add: is_capped_item_def)
  note t = capped_iff_sentinel_and_length_seven
    [where null_is_missing = True and files = ?files and out = ?out
      and r = "\<lparr>sr_postal_code = ''K1A+0A2'', sr_totalcount = 4\<rparr>"]
  have "0 \<le> sr_totalcount \<lparr>sr_postal_code = ''K1A+0A2'', sr_totalcount = 4\<rparr> \<longrightarrow>
      \<lparr>sr_postal_code = ''K1A+0A2'', sr_totalcount = 4\<rparr> \<notin> set (capped ?out)"
    using t p by blast
  then have n: "\<lparr>sr_postal_code = ''K1A+0A2'', sr_totalcount = 4\<rparr> \<notin> set (capped ?out)"
    by simp
  have "load_postal_codes (Csv_file ?df) = map Inr (map fst (filter (\<lambda>(p, t). t = VInt (- 1))
      (zip [VStr ''K1A+0'', VStr ''K1A+1'', VStr ''K1A+2''] [VInt (- 1), VInt 7, VInt (- 1)])))"
    using t [where df = ?df and pcs = "[VStr ''K1A+0'', VStr ''K1A+1'', VStr ''K1A+2'']"
        and tcs = "[VInt (- 1), VInt 7, VInt (- 1)]"] h
    by blast
  then have l: "load_postal_codes (Csv_file ?df) = [Inr (VStr ''K1A+0''), Inr (VStr ''K1A+2'')]"
    by simp
  have "load_postal_codes (Csv_file ?df2) = map Inr [VStr ''K1A+0'', VStr ''K1A+1'']"
    using t [where df = ?df2 and pcs = "[VStr ''K1A+0'', VStr ''K1A+1'']"] h2 by blast
  then have l2: "load_postal_codes (Csv_file ?df2) = [Inr (VStr ''K1A+0''), Inr (VStr ''K1A+1'')]"
    by simp
  have "load_postal_codes (Json_file ?data) = map (Inl \<circ> item_postal_code) ?data"
    using t [where data = ?data] h3 by blast
  then have l3: "load_postal_codes (Json_file ?data) = [Inl (JStr ''K1A+0''), Inl (JStr ''K1A+1'')]"
    by (simp add: item_postal_code_def)
  show ?thesis using p n l l2 l3 by blast
qed

text \<open>
  A CSV table with no \<open>totalcount\<close> column, and a JSON list of plain keys: no key has the
  count \<open>-1\<close>, and the loader returns every key.
\<close>

theorem loader_returns_every_key_counterexample:
  "load_postal_codes (Csv_file [(''postal_code'', [VStr ''K1A+0'', VStr ''K1A+1''])])
     = [Inr (VStr ''K1A+0''), Inr (VStr ''K1A+1'')]
   \<and> load_postal_codes (Json_file [JStr ''K1A'', JStr ''K1B''])
     = [Inl (JStr ''K1A''), Inl (JStr ''K1B'')]"
proof -
  have "load_postal_codes (Json_file (map JStr [''K1A'', ''K1B'']))
      = map Inl (map JStr [''K1A'', ''K1B''])"
    by (simp only: load_postal_codes_def input_file.case load_json_plain_keys)
  then show ?thesis by (simp add: load_postal_codes_def load_postal_codes_csv_def)
qed

subsection \<open>Deduplication of the detail table\<close>

lemma filter_drop_duplicates:
  "filter (\<lambda>r. key r = k) (drop_duplicates key seen rows) =
     (if k \<in> set seen then []
      else case find (\<lambda>r. key r = k) rows of None \<Rightarrow> [] | Some r \<Rightarrow> [r])"
proof (induction rows arbitrary: seen)
  case Nil
  then show ?case by simp
next
  case (Cons row rows)
  show ?case
  proof (cases "key row \<in> set seen")
    case True
    then show ?thesis using Cons.IH [of seen] by auto
  next
    case False
    then show ?thesis using Cons.IH [of "key row # seen"] by auto
  qed
qed

lemma cpsonumber_key_text:
  "cpsonumber_key null_is_missing r = Some (CStr v) \<longleftrightarrow> map_of r ''cpsonumber'' = Some (CStr v)"
  by (auto simp: cpsonumber_key_def split: option.splits cell.splits)

lemma id_update:
  "col \<noteq> ''cpsonumber'' \<Longrightarrow>
   map_of (AList.update col c row) ''cpsonumber'' = map_of row ''cpsonumber''"
  by (simp add: update_conv')

lemma filter_apply_format_phone:
  assumes "col \<noteq> ''cpsonumber''"
  shows "filter (\<lambda>r. map_of r ''cpsonumber'' = k) (apply_format_phone col df)
     = apply_format_phone col (filter (\<lambda>r. map_of r ''cpsonumber'' = k) df)"
  using assms by (simp add: apply_format_phone_def filter_map comp_def id_update)

lemma format_step:
  assumes "filter (\<lambda>r. map_of r ''cpsonumber'' = k) df = [r]" "col \<noteq> ''cpsonumber''"
  shows "filter (\<lambda>r. map_of r ''cpsonumber'' = k) (if b then apply_format_phone col df else df)
     = [(if b then AList.update col (format_cell (map_of r col)) else id) r]"
proof (cases b)
  case False
  then show ?thesis using assms(1) by simp
next
  case True
  have "filter (\<lambda>r. map_of r ''cpsonumber'' = k) (apply_format_phone col df)
      = [AList.update col (format_cell (map_of r col)) r]"
    using assms by (simp add: filter_apply_format_phone) (simp add: apply_format_phone_def)
  then show ?thesis using True by simp
qed

lemma find_Some_has_column:
  assumes "find (\<lambda>r. map_of r ''cpsonumber'' = Some (CStr v)) rows = Some r0"
  shows "has_column ''cpsonumber'' rows \<and> rows \<noteq> []"
proof -
  from assms have r0: "r0 \<in> set rows" "map_of r0 ''cpsonumber'' = Some (CStr v)"
    by (auto simp: find_Some_iff)
  then have "map_of r0 ''cpsonumber'' \<noteq> None" by simp
  then have "''cpsonumber'' \<in> fst ` set r0" by (simp add: map_of_eq_None_iff)
  then show ?thesis using r0 by (auto simp: has_column_def list_ex_iff)
qed

lemma detail_table_first_seen:
  assumes f: "find (\<lambda>r. map_of r ''cpsonumber'' = Some (CStr v)) rows = Some r0"
  shows "filter (\<lambda>r. map_of r ''cpsonumber'' = Some (CStr v)) (detail_table null_is_missing rows)
     = [(if has_column ''fax'' rows
         then AList.update ''fax'' (format_cell (map_of r0 ''fax'')) else id)
        ((if has_column ''phonenumber'' rows
          then AList.update ''phonenumber'' (format_cell (map_of r0 ''phonenumber'')) else id)
         r0)]"
proof -
  note hc = find_Some_has_column [OF f]
  define df1 where "df1 = drop_duplicates (cpsonumber_key null_is_missing) [] rows"
  define df2 where "df2 = (if has_column ''phonenumber'' rows
                    then apply_format_phone ''phonenumber'' df1 else df1)"
  define df3 where "df3 = (if has_column ''fax'' rows
                    then apply_format_phone ''fax'' df2 else df2)"
  define r1 where "r1 = (if has_column ''phonenumber'' rows
          then AList.update ''phonenumber'' (format_cell (map_of r0 ''phonenumber'')) else id) r0"
  have t: "detail_table null_is_missing rows = df3"
    using hc by (simp add: detail_table_def df1_def df2_def df3_def)
  have k: "(\<lambda>r. map_of r ''cpsonumber'' = Some (CStr v))
      = (\<lambda>r. cpsonumber_key null_is_missing r = Some (CStr v))"
    by (simp add: cpsonumber_key_text)
  have "filter (\<lambda>r. cpsonumber_key null_is_missing r = Some (CStr v)) df1 = [r0]"
    using f unfolding k by (simp add: df1_def filter_drop_duplicates)
  then have s1: "filter (\<lambda>r. map_of r ''cpsonumber'' = Some (CStr v)) df1 = [r0]"
    unfolding k .
  have s2: "filter (\<lambda>r. map_of r ''cpsonumber'' = Some (CStr v)) df2 = [r1]"
    unfolding df2_def r1_def by (rule format_step [OF s1]) simp
  have s3: "filter (\<lambda>r. map_of r ''cpsonumber'' = Some (CStr v)) df3
      = [(if has_column ''fax'' rows
          then AList.update ''fax'' (format_cell (map_of r1 ''fax'')) else id) r1]"
    unfolding df3_def by (rule format_step [OF s2]) simp
  have "map_of r1 ''fax'' = map_of r0 ''fax''"
    by (simp add: r1_def update_conv')
  then show ?thesis using s3 t by (simp add: r1_def)
qed

text \<open>
  C7. The detail records of all the raw files are taken in file order. Whenever the first
  of them with a given unique id \<open>v\<close> is \<open>r0\<close>, the detail table written by
  \<open>process_data\<close> holds exactly one row with that id, and this row is \<open>r0\<close> itself with
  its own phone number and its own fax reformatted, when the table has these columns.
  Every later record with the same id is discarded, whatever its values, phone number
  and fax included.
\<close>

theorem detail_table_keeps_first_seen:
  "process_data null_is_missing files = Some out
   \<and> find (\<lambda>r. map_of r ''cpsonumber'' = Some (CStr v)) (concat (map rf_results files))
       = Some r0 \<longrightarrow>
     filter (\<lambda>r. map_of r ''cpsonumber'' = Some (CStr v)) (details_csv out)
       = [(if has_column ''fax'' (concat (map rf_results files))
           then AList.update ''fax'' (format_cell (map_of r0 ''fax'')) else id)
          ((if has_column ''phonenumber'' (concat (map rf_results files))
            then AList.update ''phonenumber'' (format_cell (map_of r0 ''phonenumber'')) else id)
           r0)]"
proof
  assume h: "process_data null_is_missing files = Some out
   \<and> find (\<lambda>r. map_of r ''cpsonumber'' = Some (CStr v)) (concat (map rf_results files))
       = Some r0"
  then have d: "details_csv out = detail_table null_is_missing (concat (map rf_results files))"
    by (auto simp: process_data_eq split: if_splits)
  from h have f: "find (\<lambda>r. map_of r ''cpsonumber'' = Some (CStr v))
      (concat (map rf_results files)) = Some r0"
    by blast
  show "filter (\<lambda>r. map_of r ''cpsonumber'' = Some (CStr v)) (details_csv out)
       = [(if has_column ''fax'' (concat (map rf_results files))
           then AList.update ''fax'' (format_cell (map_of r0 ''fax'')) else id)
          ((if has_column ''phonenumber'' (concat (map rf_results files))
            then AList.update ''phonenumber'' (format_cell (map_of r0 ''phonenumber'')) else id)
           r0)]"
    unfolding d by (rule detail_table_first_seen [OF f])
qed

lemma process_two_files:
  "process_data null_is_missing
     [\<lparr>rf_postal_code = Some ''K1A+0'', rf_totalcount = Some 1,
       rf_results = [[(''cpsonumber'', CStr ''CPSO-1''), (''name'', CStr ''Same''),
                      (''phonenumber'', CStr ''416-555-1234'')]]\<rparr>,
      \<lparr>rf_postal_code = Some ''K1A+1'', rf_totalcount = Some 1,
       rf_results = [[(''cpsonumber'', CStr ''CPSO-1''), (''name'', CStr ''Same''),
                      (''phonenumber'', CStr ''613-555-0199'')]]\<rparr>]
   = Some \<lparr>summary_csv = [\<lparr>sr_postal_code = ''K1A+0'', sr_totalcount = 1\<rparr>,
                           \<lparr>sr_postal_code = ''K1A+1'', sr_totalcount = 1\<rparr>],
            capped = [],
            details_csv = [[(''cpsonumber'', CStr ''CPSO-1''), (''name'', CStr ''Same''),
                            (''phonenumber'', CStr ''(416) 555-1234'')]]\<rparr>"
  by (simp add: process_data_eq summary_of_def summary_df_capped_def detail_table_def
      has_column_def cpsonumber_key_def apply_format_phone_def format_cell_def format_phone_def
      is_digit_def)

theorem detail_table_keeps_first_seen_witness:
  "process_data False
     [\<lparr>rf_postal_code = Some ''K1A+0'', rf_totalcount = Some 1,
       rf_results = [[(''cpsonumber'', CStr ''CPSO-1''), (''name'', CStr ''Same''),
                      (''phonenumber'', CStr ''416-555-1234'')]]\<rparr>,
      \<lparr>rf_postal_code = Some ''K1A+1'', rf_totalcount = Some 1,
       rf_results = [[(''cpsonumber'', CStr ''CPSO-1''), (''name'', CStr ''Same''),
                      (''phonenumber'', CStr ''613-555-0199'')]]\<rparr>]
   = Some \<lparr>summary_csv = [\<lparr>sr_postal_code = ''K1A+0'', sr_totalcount = 1\<rparr>,
                           \<lparr>sr_postal_code = ''K1A+1'', sr_totalcount = 1\<rparr>],
            capped = [],
            details_csv = [[(''cpsonumber'', CStr ''CPSO-1''), (''name'', CStr ''Same''),
                            (''phonenumber'', CStr ''(416) 555-1234'')]]\<rparr>
   \<and> filter (\<lambda>r. map_of r ''cpsonumber'' = Some (CStr ''CPSO-1''))
        (details_csv
          \<lparr>summary_csv = [\<lparr>sr_postal_code = ''K1A+0'', sr_totalcount = 1\<rparr>,
                           \<lparr>sr_postal_code = ''K1A+1'', sr_totalcount = 1\<rparr>],
            capped = [],
            details_csv = [[(''cpsonumber'', CStr ''CPSO-1''), (''name'', CStr ''Same''),
                            (''phonenumber'', CStr ''(416) 555-1234'')]]\<rparr>)
      = [AList.update ''phonenumber'' (format_cell (Some (CStr ''416-555-1234'')))
           [(''cpsonumber'', CStr ''CPSO-1''), (''name'', CStr ''Same''),
            (''phonenumber'', CStr ''416-555-1234'')]]"
proof -
  let ?first = "[(''cpsonumber'', CStr ''CPSO-1''), (''name'', CStr ''Same''),
                 (''phonenumber'', CStr ''416-555-1234'')]"
  let ?second = "[(''cpsonumber'', CStr ''CPSO-1''), (''name'', CStr ''Same''),
                 (''phonenumber'', CStr ''613-555-0199'')]"
  let ?files = "[\<lparr>rf_postal_code = Some ''K1A+0'', rf_totalcount = Some 1,
       rf_results = [?first]\<rparr>,
      \<lparr>rf_postal_code = Some ''K1A+1'', rf_totalcount = Some 1, rf_results = [?second]\<rparr>]"
  let ?out = "\<lparr>summary_csv = [\<lparr>sr_postal_code = ''K1A+0'', sr_totalcount = 1\<rparr>,
                           \<lparr>sr_postal_code = ''K1A+1'', sr_totalcount = 1\<rparr>],
            capped = [],
            details_csv = [[(''cpsonumber'', CStr ''CPSO-1''), (''name'', CStr ''Same''),
                            (''phonenumber'', CStr ''(416) 555-1234'')]]\<rparr>"
  have p: "process_data False ?files = Some ?out" by (rule process_two_files)
  have f: "find (\<lambda>r. map_of r ''cpsonumber'' = Some (CStr ''CPSO-1''))
      (concat (map rf_results ?files)) = Some ?first"
    by simp
  have c1: "has_column ''phonenumber'' (concat (map rf_results ?files))"
    by (simp add: has_column_def)
  have c2: "\<not> has_column ''fax'' (concat (map rf_results ?files))"
    by (simp add: has_column_def)
  have m: "map_of ?first ''phonenumber'' = Some (CStr ''416-555-1234'')" by simp
  from detail_table_keeps_first_seen [of False ?files ?out "''CPSO-1''" ?first] p f
  have "filter (\<lambda>r. map_of r ''cpsonumber'' = Some (CStr ''CPSO-1'')) (details_csv ?out)
       = [(if has_column ''fax'' (concat (map rf_results ?files))
           then AList.update ''fax'' (format_cell (map_of ?first ''fax'')) else id)
          ((if has_column ''phonenumber'' (concat (map rf_results ?files))
            then AList.update ''phonenumber'' (format_cell (map_of ?first ''phonenumber''))
            else id)
           ?first)]"
    by blast
  then have "filter (\<lambda>r. map_of r ''cpsonumber'' = Some (CStr ''CPSO-1'')) (details_csv ?out)
      = [AList.update ''phonenumber'' (format_cell (Some (CStr ''416-555-1234''))) ?first]"
    unfolding if_P [OF c1] if_not_P [OF c2] m by (simp only: id_apply)
  then show ?thesis using p by blast
qed

subsection \<open>The retry loop\<close>

lemma fetch_loop_Returned:
  "retries < m \<Longrightarrow> attempt_result (net c (POST body)) = Returned v \<Longrightarrow>
   fetch_loop net body m retries d c sl =
     \<lparr>fr_value = v, fr_sleeps = sl, fr_retries = retries, fr_clock = c + 1\<rparr>"
  by (subst fetch_loop.simps) simp

lemma fetch_loop_Backoff:
  "retries < m \<Longrightarrow> attempt_result (net c (POST body)) = Backoff \<Longrightarrow>
   fetch_loop net body m retries d c sl =
     fetch_loop net body m (retries + 1) (d * 2) (c + 1) (sl @ [d])"
  by (subst fetch_loop.simps) simp

lemma fetch_loop_exhausted:
  "\<not> retries < m \<Longrightarrow>
   fetch_loop net body m retries d c sl =
     \<lparr>fr_value = JNull, fr_sleeps = sl, fr_retries = retries, fr_clock = c\<rparr>"
  by (subst fetch_loop.simps) simp

lemma fetch_loop_backoffs:
  "\<forall>i<k. attempt_result (net (c + i) (POST body)) = Backoff \<Longrightarrow> retries + k \<le> m \<Longrightarrow>
   fetch_loop net body m retries d c sl =
     fetch_loop net body m (retries + k) (d * 2 ^ k) (c + k) (sl @ map (\<lambda>i. d * 2 ^ i) [0..<k])"
proof (induction k arbitrary: retries d c sl)
  case 0
  then show ?case by simp
next
  case (Suc k)
  have first: "attempt_result (net c (POST body)) = Backoff" using Suc.prems(1) by force
  have rest: "\<forall>i<k. attempt_result (net (c + 1 + i) (POST body)) = Backoff"
    using Suc.prems(1) by (metis Suc_less_eq add_Suc_right add_Suc_shift Suc_eq_plus1)
  have lt: "retries < m" using Suc.prems(2) by simp
  have "map (\<lambda>i. d * 2 ^ i) [0..<Suc k] = d # map (\<lambda>i. d * 2 * 2 ^ i) [0..<k]"
    by (simp add: upt_rec [of 0] map_Suc_upt [symmetric] del: upt_Suc)
  then show ?case
    using Suc.IH [where c = "c + 1" and retries = "retries + 1" and sl = "sl @ [d]"
        and d = "d * 2", OF rest] Suc.prems(2) lt first
    by (simp add: fetch_loop_Backoff mult.assoc)
qed

lemma fetch_loop_clock:
  "retries \<le> m \<Longrightarrow>
   c \<le> fr_clock (fetch_loop net body m retries d c sl)
   \<and> fr_clock (fetch_loop net body m retries d c sl) + retries \<le> c + m"
proof (induction net body m retries d c sl rule: fetch_loop.induct)
  case (1 net body m retries d c sl)
  show ?case
  proof (cases "retries < m")
    case False
    then show ?thesis using 1(2) by (simp add: fetch_loop_exhausted)
  next
    case True
    show ?thesis
    proof (cases "attempt_result (net c (POST body))")
      case (Returned v)
      then show ?thesis using True by (simp add: fetch_loop_Returned)
    next
      case Backoff
      have "retries + 1 \<le> m" using True by simp
      from "1.IH" [OF True Backoff this] show ?thesis
        using True Backoff by (simp add: fetch_loop_Backoff)
    qed
  qed
qed

lemma fetch_returns_after:
  assumes "k < m" "\<forall>i<k. attempt_result (net (c + i) (POST body)) = Backoff"
    "attempt_result (net (c + k) (POST body)) = Returned v"
  shows "fetch_with_backoff net body c m d =
     \<lparr>fr_value = v, fr_sleeps = map (\<lambda>i. d * 2 ^ i) [0..<k], fr_retries = k,
      fr_clock = c + k + 1\<rparr>"
  using assms fetch_loop_backoffs [where net = net and c = c and body = body and k = k
      and retries = 0 and m = m and d = d and sl = "[]"]
  by (simp add: fetch_with_backoff_def fetch_loop_Returned)

lemma fetch_gives_up:
  assumes "\<forall>i<m. attempt_result (net (c + i) (POST body)) = Backoff"
  shows "fetch_with_backoff net body c m d =
     \<lparr>fr_value = JNull, fr_sleeps = map (\<lambda>i. d * 2 ^ i) [0..<m], fr_retries = m,
      fr_clock = c + m\<rparr>"
  using assms fetch_loop_backoffs [where net = net and c = c and body = body and k = m
      and retries = 0 and m = m and d = d and sl = "[]"]
  by (simp add: fetch_with_backoff_def fetch_loop_exhausted)

lemma fetch_first_request:
  assumes m: "0 < m"
  shows "c + 1 \<le> fr_clock (fetch_with_backoff net body c m d)"
proof (cases "attempt_result (net c (POST body))")
  case (Returned v)
  then show ?thesis using m by (simp add: fetch_with_backoff_def fetch_loop_Returned)
next
  case Backoff
  have "fetch_with_backoff net body c m d
      = fetch_loop net body m (0 + 1) (d * 2) (c + 1) ([] @ [d])"
    unfolding fetch_with_backoff_def using Backoff m by (intro fetch_loop_Backoff) simp_all
  moreover have "c + 1 \<le> fr_clock (fetch_loop net body m (0 + 1) (d * 2) (c + 1) ([] @ [d]))"
    using fetch_loop_clock [of "0 + 1" m "c + 1" net body "d * 2" "[] @ [d]"] m by simp
  ultimately show ?thesis by simp
qed

lemma five_sleeps: "map (\<lambda>i. (2::int) * 2 ^ i) [0..<5] = [2, 4, 8, 16, 32]"
  by (simp add: upt_rec)

lemma marker_returns_None:
  assumes "contains ''Invalid control character at: line'' msg"
    "out = Raised msg \<or> out = Response 200 (Inl msg)"
  shows "attempt_result out = Returned JNull"
  using assms by (auto simp: attempt_result_def on_exception_def)

subsection \<open>One postal code\<close>

lemma scrape_skip:
  assumes "net (clock st) GET = Response s page"
    "\<not> truthy (fr_value (fetch_with_backoff net (request_body pc dt ln) (clock st + 1) 5 2))"
  shows "scrape_postal_code net dt ln pc st =
    Inr (st\<lparr>clock := fr_clock (fetch_with_backoff net (request_body pc dt ln) (clock st + 1) 5 2)\<rparr>)"
  using assms by (simp add: scrape_postal_code_def Let_def)

lemma scrape_store:
  assumes "net (clock st) GET = Response s page"
    "fr_value (fetch_with_backoff net (request_body pc dt ln) (clock st + 1) 5 2) = JObj entries"
    "entries \<noteq> []"
    "results_len (JObj (AList.update ''postal_code'' (JStr pc) entries)) = Inr n"
  shows "scrape_postal_code net dt ln pc st =
    Inr \<lparr>all_results = all_results st @ [JObj (AList.update ''postal_code'' (JStr pc) entries)],
         raw_files = (raw_files st)
           (raw_filename pc dt ln \<mapsto> JObj (AList.update ''postal_code'' (JStr pc) entries)),
         clock = fr_clock (fetch_with_backoff net (request_body pc dt ln) (clock st + 1) 5 2)\<rparr>"
  using assms by (simp add: scrape_postal_code_def Let_def)

lemma scrape_clock:
  assumes "scrape_postal_code net dt ln pc st = Inr st'"
  shows "clock st + 2 \<le> clock st'"
proof -
  have "clock st + 1 + 1
      \<le> fr_clock (fetch_with_backoff net (request_body pc dt ln) (clock st + 1) 5 2)"
    by (rule fetch_first_request) simp
  then show ?thesis using assms
    by (auto simp: scrape_postal_code_def Let_def
        split: outcome.splits if_splits json.splits sum.splits)
qed

lemma scrape_files:
  assumes "scrape_postal_code net dt ln pc st = Inr st'"
  shows "\<exists>W. dom W \<subseteq> {raw_filename pc dt ln}
    \<and> (\<forall>F. scrape_postal_code net dt ln pc (st\<lparr>raw_files := F\<rparr>)
           = Inr (st'\<lparr>raw_files := F ++ W\<rparr>))"
proof (cases "truthy (fr_value (fetch_with_backoff net (request_body pc dt ln) (clock st + 1) 5 2))")
  case False
  have "\<forall>F. scrape_postal_code net dt ln pc (st\<lparr>raw_files := F\<rparr>)
      = Inr (st'\<lparr>raw_files := F ++ Map.empty\<rparr>)"
    using assms False
    by (auto simp: scrape_postal_code_def Let_def split: outcome.splits)
  then show ?thesis by (intro exI [of _ Map.empty]) simp
next
  case True
  then obtain entries n where
    e: "fr_value (fetch_with_backoff net (request_body pc dt ln) (clock st + 1) 5 2) = JObj entries"
    and n: "results_len (JObj (AList.update ''postal_code'' (JStr pc) entries)) = Inr n"
    using assms
    by (auto simp: scrape_postal_code_def Let_def split: outcome.splits json.splits sum.splits)
  let ?W = "[raw_filename pc dt ln \<mapsto> JObj (AList.update ''postal_code'' (JStr pc) entries)]"
  have "\<forall>F. scrape_postal_code net dt ln pc (st\<lparr>raw_files := F\<rparr>)
      = Inr (st'\<lparr>raw_files := F ++ ?W\<rparr>)"
    using assms True e n
    by (auto simp: scrape_postal_code_def Let_def split: outcome.splits)
  then show ?thesis by (intro exI [of _ ?W]) simp
qed

subsection \<open>The loop over the postal codes\<close>

lemma loop_files:
  assumes "fetch_results_loop net dt ln pcs st = Inr st'"
  shows "\<exists>W. dom W \<subseteq> (\<lambda>pc. raw_filename pc dt ln) ` set pcs
    \<and> (\<forall>F. fetch_results_loop net dt ln pcs (st\<lparr>raw_files := F\<rparr>)
           = Inr (st'\<lparr>raw_files := F ++ W\<rparr>))"
  using assms
proof (induction pcs arbitrary: st)
  case Nil
  then have "\<forall>F. fetch_results_loop net dt ln [] (st\<lparr>raw_files := F\<rparr>)
      = Inr (st'\<lparr>raw_files := F ++ Map.empty\<rparr>)"
    by auto
  then show ?case by (intro exI [of _ Map.empty]) simp
next
  case (Cons pc pcs)
  then obtain st1 where s1: "scrape_postal_code net dt ln pc st = Inr st1"
    and r: "fetch_results_loop net dt ln pcs st1 = Inr st'"
    by (auto split: sum.splits)
  from scrape_files [OF s1] obtain W1 where
    d1: "dom W1 \<subseteq> {raw_filename pc dt ln}"
    and w1: "\<And>F. scrape_postal_code net dt ln pc (st\<lparr>raw_files := F\<rparr>)
        = Inr (st1\<lparr>raw_files := F ++ W1\<rparr>)"
    by blast
  from Cons.IH [OF r] obtain W2 where
    d2: "dom W2 \<subseteq> (\<lambda>pc. raw_filename pc dt ln) ` set pcs"
    and w2: "\<And>F. fetch_results_loop net dt ln pcs (st1\<lparr>raw_files := F\<rparr>)
        = Inr (st'\<lparr>raw_files := F ++ W2\<rparr>)"
    by blast
  have "\<forall>F. fetch_results_loop net dt ln (pc # pcs) (st\<lparr>raw_files := F\<rparr>)
      = Inr (st'\<lparr>raw_files := F ++ (W1 ++ W2)\<rparr>)"
    by (simp add: w1 w2)
  moreover have "dom (W1 ++ W2) \<subseteq> (\<lambda>pc. raw_filename pc dt ln) ` set (pc # pcs)"
    using d1 d2 by auto
  ultimately show ?case by blast
qed

lemma loop_clock:
  "fetch_results_loop net dt ln pcs st = Inr st' \<Longrightarrow> clock st + 2 * length pcs \<le> clock st'"
proof (induction pcs arbitrary: st)
  case Nil
  then show ?case by simp
next
  case (Cons pc pcs)
  then obtain st1 where s1: "scrape_postal_code net dt ln pc st = Inr st1"
    and r: "fetch_results_loop net dt ln pcs st1 = Inr st'"
    by (auto split: sum.splits)
  show ?case using scrape_clock [OF s1] Cons.IH [OF r] by simp
qed

text \<open>
  C4 (as amended). With its default five retries and initial delay 2, \<open>fetch_with_backoff\<close>
  makes at most five requests. When the first \<open>k < 5\<close> attempts fall through to the
  backoff and the next one is a status-200 response with a parsed payload, it returns
  that payload after sleeping \<open>2, 4, \<dots>\<close>, once per failed attempt. When all five
  attempts fall through it sleeps \<open>2, 4, 8, 16, 32\<close> and returns \<open>None\<close>. A 429 response
  falls through to the backoff, and so does an exception without the control-character
  marker. The caller attaches the key as the entry \<open>postal_code\<close>, keeps the payload and
  writes its file when the payload is a non-empty object whose results have a length; a
  payload that is not truthy, such as the empty object, is skipped like a failure.
\<close>

theorem fetch_with_backoff_retries:
  "fr_clock (fetch_with_backoff net body c 5 2) \<le> c + 5
   \<and> (k < 5 \<and> (\<forall>i<k. attempt_result (net (c + i) (POST body)) = Backoff)
        \<and> net (c + k) (POST body) = Response 200 (Inr payload) \<longrightarrow>
      fetch_with_backoff net body c 5 2 =
        \<lparr>fr_value = payload, fr_sleeps = map (\<lambda>i. 2 * 2 ^ i) [0..<k], fr_retries = k,
         fr_clock = c + k + 1\<rparr>)
   \<and> ((\<forall>i<5. attempt_result (net (c + i) (POST body)) = Backoff) \<longrightarrow>
      fetch_with_backoff net body c 5 2 =
        \<lparr>fr_value = JNull, fr_sleeps = [2, 4, 8, 16, 32], fr_retries = 5, fr_clock = c + 5\<rparr>)
   \<and> attempt_result (Response 429 content) = Backoff
   \<and> (\<not> contains ''Invalid control character at: line'' msg \<longrightarrow>
        attempt_result (Raised msg) = Backoff)
   \<and> (net (clock st) GET = Response s page
        \<and> fr_value (fetch_with_backoff net (request_body pc dt ln) (clock st + 1) 5 2)
            = JObj entries
        \<and> entries \<noteq> []
        \<and> results_len (JObj (AList.update ''postal_code'' (JStr pc) entries)) = Inr n \<longrightarrow>
      scrape_postal_code net dt ln pc st =
        Inr \<lparr>all_results =
               all_results st @ [JObj (AList.update ''postal_code'' (JStr pc) entries)],
             raw_files = (raw_files st)
               (raw_filename pc dt ln \<mapsto> JObj (AList.update ''postal_code'' (JStr pc) entries)),
             clock = fr_clock (fetch_with_backoff net (request_body pc dt ln) (clock st + 1) 5 2)\<rparr>)
   \<and> (net (clock st) GET = Response s page
        \<and> \<not> truthy (fr_value (fetch_with_backoff net (request_body pc dt ln) (clock st + 1) 5 2))
        \<longrightarrow>
      scrape_postal_code net dt ln pc st =
        Inr (st\<lparr>clock :=
               fr_clock (fetch_with_backoff net (request_body pc dt ln) (clock st + 1) 5 2)\<rparr>))"
proof -
  have a: "fr_clock (fetch_with_backoff net body c 5 2) \<le> c + 5"
    using fetch_loop_clock [of 0 5 c net body 2 "[]"] by (simp add: fetch_with_backoff_def)
  have b: "k < 5 \<and> (\<forall>i<k. attempt_result (net (c + i) (POST body)) = Backoff)
        \<and> net (c + k) (POST body) = Response 200 (Inr payload) \<longrightarrow>
      fetch_with_backoff net body c 5 2 =
        \<lparr>fr_value = payload, fr_sleeps = map (\<lambda>i. 2 * 2 ^ i) [0..<k], fr_retries = k,
         fr_clock = c + k + 1\<rparr>"
  proof
    assume h: "k < 5 \<and> (\<forall>i<k. attempt_result (net (c + i) (POST body)) = Backoff)
        \<and> net (c + k) (POST body) = Response 200 (Inr payload)"
    then have r: "attempt_result (net (c + k) (POST body)) = Returned payload"
      by (simp add: attempt_result_def)
    show "fetch_with_backoff net body c 5 2 =
        \<lparr>fr_value = payload, fr_sleeps = map (\<lambda>i. 2 * 2 ^ i) [0..<k], fr_retries = k,
         fr_clock = c + k + 1\<rparr>"
      using h r by (intro fetch_returns_after) simp_all
  qed
  have d: "(\<forall>i<5. attempt_result (net (c + i) (POST body)) = Backoff) \<longrightarrow>
      fetch_with_backoff net body c 5 2 =
        \<lparr>fr_value = JNull, fr_sleeps = [2, 4, 8, 16, 32], fr_retries = 5, fr_clock = c + 5\<rparr>"
    using fetch_gives_up [of 5 net c body 2] five_sleeps by simp
  have e: "attempt_result (Response 429 content) = Backoff"
    by (simp add: attempt_result_def)
  have f: "\<not> contains ''Invalid control character at: line'' msg \<longrightarrow>
        attempt_result (Raised msg) = Backoff"
    by (simp add: attempt_result_def on_exception_def)
  have g: "net (clock st) GET = Response s page
        \<and> fr_value (fetch_with_backoff net (request_body pc dt ln) (clock st + 1) 5 2)
            = JObj entries
        \<and> entries \<noteq> []
        \<and> results_len (JObj (AList.update ''postal_code'' (JStr pc) entries)) = Inr n \<longrightarrow>
      scrape_postal_code net dt ln pc st =
        Inr \<lparr>all_results =
               all_results st @ [JObj (AList.update ''postal_code'' (JStr pc) entries)],
             raw_files = (raw_files st)
               (raw_filename pc dt ln \<mapsto> JObj (AList.update ''postal_code'' (JStr pc) entries)),
             clock = fr_clock (fetch_with_backoff net (request_body pc dt ln) (clock st + 1) 5 2)\<rparr>"
    using scrape_store by blast
  have h: "net (clock st) GET = Response s page
        \<and> \<not> truthy (fr_value (fetch_with_backoff net (request_body pc dt ln) (clock st + 1) 5 2))
        \<longrightarrow>
      scrape_postal_code net dt ln pc st =
        Inr (st\<lparr>clock :=
               fr_clock (fetch_with_backoff net (request_body pc dt ln) (clock st + 1) 5 2)\<rparr>)"
    using scrape_skip by blast
  show ?thesis using a b d e f g h by blast
qed

lemma net_rate_limited_answers:
  "net_rate_limited 3 0 GET = Response 200 (Inl ''Expecting value'')"
  "i < 2 \<Longrightarrow> attempt_result (net_rate_limited 3 (1 + i) (POST body)) = Backoff"
  "net_rate_limited 3 (1 + 2) (POST body) =
     Response 200 (Inr (JObj [(''totalcount'', JInt 1),
       (''results'', JList [JObj [(''cpsonumber'', JStr ''CPSO-1'')]])]))"
  by (simp_all add: net_rate_limited_def attempt_result_def)

lemma net_timeout_answers:
  "net_timeout n GET = Response 200 (Inl ''Expecting value'')"
  "attempt_result (net_timeout n (POST body)) = Backoff"
  by (simp_all add: net_timeout_def attempt_result_def on_exception_def)

theorem fetch_with_backoff_retries_witness:
  "fetch_with_backoff (net_rate_limited 3) (request_body ''K1A+0'' Any ''Any'') 1 5 2 =
     \<lparr>fr_value = JObj [(''totalcount'', JInt 1),
         (''results'', JList [JObj [(''cpsonumber'', JStr ''CPSO-1'')]])],
      fr_sleeps = [2, 4], fr_retries = 2, fr_clock = 4\<rparr>
   \<and> fetch_with_backoff net_timeout (request_body ''K1A+0'' Any ''Any'') 1 5 2 =
     \<lparr>fr_value = JNull, fr_sleeps = [2, 4, 8, 16, 32], fr_retries = 5, fr_clock = 6\<rparr>
   \<and> scrape_postal_code (net_rate_limited 3) Any ''Any'' ''K1A+0''
       \<lparr>all_results = [], raw_files = Map.empty, clock = 0\<rparr> =
     Inr \<lparr>all_results = [JObj [(''totalcount'', JInt 1),
            (''results'', JList [JObj [(''cpsonumber'', JStr ''CPSO-1'')]]),
            (''postal_code'', JStr ''K1A+0'')]],
          raw_files = [''K1A+0+Any+Any.json'' \<mapsto> JObj [(''totalcount'', JInt 1),
            (''results'', JList [JObj [(''cpsonumber'', JStr ''CPSO-1'')]]),
            (''postal_code'', JStr ''K1A+0'')]],
          clock = 4\<rparr>
   \<and> scrape_postal_code net_timeout Any ''Any'' ''K1A+0''
       \<lparr>all_results = [], raw_files = Map.empty, clock = 0\<rparr> =
     Inr \<lparr>all_results = [], raw_files = Map.empty, clock = 6\<rparr>"
proof -
  let ?body = "request_body ''K1A+0'' Any ''Any''"
  let ?st = "\<lparr>all_results = [], raw_files = Map.empty, clock = 0\<rparr>"
  let ?payload = "JObj [(''totalcount'', JInt 1),
         (''results'', JList [JObj [(''cpsonumber'', JStr ''CPSO-1'')]])]"
  have two: "map (\<lambda>i. (2::int) * 2 ^ i) [0..<2] = [2, 4]" by (simp add: upt_rec)
  have h1: "(2::nat) < 5 \<and> (\<forall>i<2. attempt_result (net_rate_limited 3 (1 + i) (POST ?body)) = Backoff)
      \<and> net_rate_limited 3 (1 + 2) (POST ?body) = Response 200 (Inr ?payload)"
    using net_rate_limited_answers by simp
  have f1: "fetch_with_backoff (net_rate_limited 3) ?body 1 5 2 =
     \<lparr>fr_value = ?payload, fr_sleeps = [2, 4], fr_retries = 2, fr_clock = 4\<rparr>"
    using fetch_with_backoff_retries [of "net_rate_limited 3" ?body 1 2 ?payload] h1 two
    by simp
  have h2: "\<forall>i<5. attempt_result (net_timeout (1 + i) (POST ?body)) = Backoff"
    using net_timeout_answers by simp
  have f2: "fetch_with_backoff net_timeout ?body 1 5 2 =
     \<lparr>fr_value = JNull, fr_sleeps = [2, 4, 8, 16, 32], fr_retries = 5, fr_clock = 6\<rparr>"
    using fetch_with_backoff_retries [of net_timeout ?body 1] h2 by simp
  have g1: "net_rate_limited 3 (clock ?st) GET = Response 200 (Inl ''Expecting value'')
      \<and> fr_value (fetch_with_backoff (net_rate_limited 3) ?body (clock ?st + 1) 5 2)
          = JObj [(''totalcount'', JInt 1),
              (''results'', JList [JObj [(''cpsonumber'', JStr ''CPSO-1'')]])]
      \<and> [(''totalcount'', JInt 1),
              (''results'', JList [JObj [(''cpsonumber'', JStr ''CPSO-1'')]])] \<noteq> []
      \<and> results_len (JObj (AList.update ''postal_code'' (JStr ''K1A+0'')
            [(''totalcount'', JInt 1),
              (''results'', JList [JObj [(''cpsonumber'', JStr ''CPSO-1'')]])])) = Inr 1"
    using f1 net_rate_limited_answers(1) by (simp add: results_len_def)
  have s1: "scrape_postal_code (net_rate_limited 3) Any ''Any'' ''K1A+0'' ?st =
     Inr \<lparr>all_results = [JObj [(''totalcount'', JInt 1),
            (''results'', JList [JObj [(''cpsonumber'', JStr ''CPSO-1'')]]),
            (''postal_code'', JStr ''K1A+0'')]],
          raw_files = [''K1A+0+Any+Any.json'' \<mapsto> JObj [(''totalcount'', JInt 1),
            (''results'', JList [JObj [(''cpsonumber'', JStr ''CPSO-1'')]]),
            (''postal_code'', JStr ''K1A+0'')]],
          clock = 4\<rparr>"
    using fetch_with_backoff_retries [of "net_rate_limited 3" _ _ _ _ _ _ ?st
        200 "Inl ''Expecting value''" "''K1A+0''" Any "''Any''"
        "[(''totalcount'', JInt 1),
          (''results'', JList [JObj [(''cpsonumber'', JStr ''CPSO-1'')]])]" 1] g1 f1
    by (simp add: raw_filename_def)
  have g2: "net_timeout (clock ?st) GET = Response 200 (Inl ''Expecting value'')
      \<and> \<not> truthy (fr_value (fetch_with_backoff net_timeout ?body (clock ?st + 1) 5 2))"
    using f2 net_timeout_answers(1) by simp
  have s2: "scrape_postal_code net_timeout Any ''Any'' ''K1A+0'' ?st =
     Inr \<lparr>all_results = [], raw_files = Map.empty, clock = 6\<rparr>"
    using fetch_with_backoff_retries [of net_timeout _ _ _ _ _ _ ?st
        200 "Inl ''Expecting value''" "''K1A+0''" Any "''Any''"] g2 f2
    by simp
  show ?thesis using f1 f2 s1 s2 by blast
qed

text \<open>
  A status-200 response whose payload is the empty object: \<open>fetch_with_backoff\<close> returns
  it, and the caller neither attaches the key nor keeps anything.
\<close>

theorem empty_payload_counterexample:
  "net_empty_object 1 (POST (request_body ''K1A+0'' Any ''Any'')) = Response 200 (Inr (JObj []))
   \<and> fr_value (fetch_with_backoff net_empty_object (request_body ''K1A+0'' Any ''Any'') 1 5 2)
       = JObj []
   \<and> fetch_results_with_rate_limit net_empty_object [''K1A+0''] Any ''Any'' Map.empty =
       Inr \<lparr>all_results = [], raw_files = Map.empty, clock = 2\<rparr>"
  by (simp add: fetch_results_with_rate_limit_def scrape_postal_code_def fetch_with_backoff_def
      fetch_loop.simps attempt_result_def net_empty_object_def Let_def)

text \<open>
  C5. When a request raises an exception whose text holds the control-character marker,
  be it raised by the request or by the decoding of a status-200 response, the retry loop
  returns \<open>None\<close> at once: the delays slept and the retry counter are what they were, and
  this request was the last. So when the marker comes after \<open>k < 5\<close> attempts that fell
  through to the backoff, \<open>fetch_with_backoff\<close> has slept \<open>k\<close> times, its counter is \<open>k\<close>
  and it has made \<open>k + 1\<close> requests; at the first attempt nothing has been slept and the
  counter is 0. The loop over the postal codes does not stop: the key leaves the results
  and the files as they were and the loop goes on with the remaining keys, and when the
  next key is fetched with a non-empty object, that object is kept and written with its
  key.
\<close>

theorem control_character_returns_at_once:
  "(contains ''Invalid control character at: line'' msg \<and> retries < max_retries
      \<and> (net c (POST body) = Raised msg \<or> net c (POST body) = Response 200 (Inl msg)) \<longrightarrow>
     fetch_loop net body max_retries retries delay c slept =
       \<lparr>fr_value = JNull, fr_sleeps = slept, fr_retries = retries, fr_clock = c + 1\<rparr>)
   \<and> (contains ''Invalid control character at: line'' msg \<and> k < 5
      \<and> (\<forall>i<k. attempt_result (net (c + i) (POST body)) = Backoff)
      \<and> (net (c + k) (POST body) = Raised msg
          \<or> net (c + k) (POST body) = Response 200 (Inl msg)) \<longrightarrow>
     fetch_with_backoff net body c 5 2 =
       \<lparr>fr_value = JNull, fr_sleeps = map (\<lambda>i. 2 * 2 ^ i) [0..<k], fr_retries = k,
        fr_clock = c + k + 1\<rparr>)
   \<and> (contains ''Invalid control character at: line'' msg \<and> k < 5
      \<and> net (clock st) GET = Response s page
      \<and> (\<forall>i<k. attempt_result (net (clock st + 1 + i) (POST (request_body pc dt ln))) = Backoff)
      \<and> (net (clock st + 1 + k) (POST (request_body pc dt ln)) = Raised msg
          \<or> net (clock st + 1 + k) (POST (request_body pc dt ln)) = Response 200 (Inl msg)) \<longrightarrow>
     scrape_postal_code net dt ln pc st = Inr (st\<lparr>clock := clock st + k + 2\<rparr>)
     \<and> fetch_results_loop net dt ln (pc # rest) st =
         fetch_results_loop net dt ln rest (st\<lparr>clock := clock st + k + 2\<rparr>)
     \<and> (net (clock st + k + 2) GET = Response s' page'
        \<and> fr_value (fetch_with_backoff net (request_body pc' dt ln) (clock st + k + 3) 5 2)
            = JObj entries
        \<and> entries \<noteq> []
        \<and> results_len (JObj (AList.update ''postal_code'' (JStr pc') entries)) = Inr n \<longrightarrow>
       fetch_results_loop net dt ln (pc # pc' # rest) st =
         fetch_results_loop net dt ln rest
           \<lparr>all_results =
              all_results st @ [JObj (AList.update ''postal_code'' (JStr pc') entries)],
            raw_files = (raw_files st)
              (raw_filename pc' dt ln \<mapsto> JObj (AList.update ''postal_code'' (JStr pc') entries)),
            clock = fr_clock
              (fetch_with_backoff net (request_body pc' dt ln) (clock st + k + 3) 5 2)\<rparr>))"
proof -
  have a: "contains ''Invalid control character at: line'' msg \<and> retries < max_retries
      \<and> (net c (POST body) = Raised msg \<or> net c (POST body) = Response 200 (Inl msg)) \<longrightarrow>
     fetch_loop net body max_retries retries delay c slept =
       \<lparr>fr_value = JNull, fr_sleeps = slept, fr_retries = retries, fr_clock = c + 1\<rparr>"
  proof
    assume h: "contains ''Invalid control character at: line'' msg \<and> retries < max_retries
      \<and> (net c (POST body) = Raised msg \<or> net c (POST body) = Response 200 (Inl msg))"
    then have r: "attempt_result (net c (POST body)) = Returned JNull"
      using marker_returns_None [of msg "net c (POST body)"] by blast
    from h have "retries < max_retries" by blast
    then show "fetch_loop net body max_retries retries delay c slept =
       \<lparr>fr_value = JNull, fr_sleeps = slept, fr_retries = retries, fr_clock = c + 1\<rparr>"
      using r by (rule fetch_loop_Returned)
  qed
  have b: "contains ''Invalid control character at: line'' msg \<and> k < 5
      \<and> (\<forall>i<k. attempt_result (net (c' + i) (POST body')) = Backoff)
      \<and> (net (c' + k) (POST body') = Raised msg
          \<or> net (c' + k) (POST body') = Response 200 (Inl msg)) \<longrightarrow>
     fetch_with_backoff net body' c' 5 2 =
       \<lparr>fr_value = JNull, fr_sleeps = map (\<lambda>i. 2 * 2 ^ i) [0..<k], fr_retries = k,
        fr_clock = c' + k + 1\<rparr>" for c' body'
  proof
    assume h: "contains ''Invalid control character at: line'' msg \<and> k < 5
      \<and> (\<forall>i<k. attempt_result (net (c' + i) (POST body')) = Backoff)
      \<and> (net (c' + k) (POST body') = Raised msg
          \<or> net (c' + k) (POST body') = Response 200 (Inl msg))"
    then have r: "attempt_result (net (c' + k) (POST body')) = Returned JNull"
      using marker_returns_None [of msg "net (c' + k) (POST body')"] by blast
    from h have k: "k < 5" and bs: "\<forall>i<k. attempt_result (net (c' + i) (POST body')) = Backoff"
      by blast+
    show "fetch_with_backoff net body' c' 5 2 =
       \<lparr>fr_value = JNull, fr_sleeps = map (\<lambda>i. 2 * 2 ^ i) [0..<k], fr_retries = k,
        fr_clock = c' + k + 1\<rparr>"
      using k bs r by (rule fetch_returns_after)
  qed
  have d: "contains ''Invalid control character at: line'' msg \<and> k < 5
      \<and> net (clock st) GET = Response s page
      \<and> (\<forall>i<k. attempt_result (net (clock st + 1 + i) (POST (request_body pc dt ln))) = Backoff)
      \<and> (net (clock st + 1 + k) (POST (request_body pc dt ln)) = Raised msg
          \<or> net (clock st + 1 + k) (POST (request_body pc dt ln)) = Response 200 (Inl msg)) \<longrightarrow>
     scrape_postal_code net dt ln pc st = Inr (st\<lparr>clock := clock st + k + 2\<rparr>)
     \<and> fetch_results_loop net dt ln (pc # rest) st =
         fetch_results_loop net dt ln rest (st\<lparr>clock := clock st + k + 2\<rparr>)
     \<and> (net (clock st + k + 2) GET = Response s' page'
        \<and> fr_value (fetch_with_backoff net (request_body pc' dt ln) (clock st + k + 3) 5 2)
            = JObj entries
        \<and> entries \<noteq> []
        \<and> results_len (JObj (AList.update ''postal_code'' (JStr pc') entries)) = Inr n \<longrightarrow>
       fetch_results_loop net dt ln (pc # pc' # rest) st =
         fetch_results_loop net dt ln rest
           \<lparr>all_results =
              all_results st @ [JObj (AList.update ''postal_code'' (JStr pc') entries)],
            raw_files = (raw_files st)
              (raw_filename pc' dt ln \<mapsto> JObj (AList.update ''postal_code'' (JStr pc') entries)),
            clock = fr_clock
              (fetch_with_backoff net (request_body pc' dt ln) (clock st + k + 3) 5 2)\<rparr>)"
  proof
    assume h: "contains ''Invalid control character at: line'' msg \<and> k < 5
      \<and> net (clock st) GET = Response s page
      \<and> (\<forall>i<k. attempt_result (net (clock st + 1 + i) (POST (request_body pc dt ln))) = Backoff)
      \<and> (net (clock st + 1 + k) (POST (request_body pc dt ln)) = Raised msg
          \<or> net (clock st + 1 + k) (POST (request_body pc dt ln)) = Response 200 (Inl msg))"
    then have f: "fetch_with_backoff net (request_body pc dt ln) (clock st + 1) 5 2 =
       \<lparr>fr_value = JNull, fr_sleeps = map (\<lambda>i. 2 * 2 ^ i) [0..<k], fr_retries = k,
        fr_clock = clock st + 1 + k + 1\<rparr>"
      using b [of "clock st + 1" "request_body pc dt ln"] by blast
    from h have get: "net (clock st) GET = Response s page" by blast
    define st1 where "st1 = st\<lparr>clock := clock st + k + 2\<rparr>"
    have step: "scrape_postal_code net dt ln pc st = Inr st1"
      using scrape_skip [where net = net and st = st and s = s and page = page and pc = pc
          and dt = dt and ln = ln] get f
      by (simp add: st1_def)
    have loop: "fetch_results_loop net dt ln (pc # rest') st = fetch_results_loop net dt ln rest' st1"
      for rest'
      using step by simp
    have c1: "clock st1 = clock st + k + 2" "clock st1 + 1 = clock st + k + 3"
      "all_results st1 = all_results st" "raw_files st1 = raw_files st"
      by (simp_all add: st1_def)
    have next_key: "net (clock st + k + 2) GET = Response s' page'
        \<and> fr_value (fetch_with_backoff net (request_body pc' dt ln) (clock st + k + 3) 5 2)
            = JObj entries
        \<and> entries \<noteq> []
        \<and> results_len (JObj (AList.update ''postal_code'' (JStr pc') entries)) = Inr n \<longrightarrow>
       fetch_results_loop net dt ln (pc # pc' # rest) st =
         fetch_results_loop net dt ln rest
           \<lparr>all_results =
              all_results st @ [JObj (AList.update ''postal_code'' (JStr pc') entries)],
            raw_files = (raw_files st)
              (raw_filename pc' dt ln \<mapsto> JObj (AList.update ''postal_code'' (JStr pc') entries)),
            clock = fr_clock
              (fetch_with_backoff net (request_body pc' dt ln) (clock st + k + 3) 5 2)\<rparr>"
    proof
      assume g: "net (clock st + k + 2) GET = Response s' page'
        \<and> fr_value (fetch_with_backoff net (request_body pc' dt ln) (clock st + k + 3) 5 2)
            = JObj entries
        \<and> entries \<noteq> []
        \<and> results_len (JObj (AList.update ''postal_code'' (JStr pc') entries)) = Inr n"
      have "scrape_postal_code net dt ln pc' st1 =
          Inr \<lparr>all_results =
                 all_results st1 @ [JObj (AList.update ''postal_code'' (JStr pc') entries)],
               raw_files = (raw_files st1)
                 (raw_filename pc' dt ln \<mapsto>
                    JObj (AList.update ''postal_code'' (JStr pc') entries)),
               clock = fr_clock
                 (fetch_with_backoff net (request_body pc' dt ln) (clock st1 + 1) 5 2)\<rparr>"
        using g unfolding c1(1,2) [symmetric]
        by (intro scrape_store [where s = s' and page = page' and n = n]) blast+
      then show "fetch_results_loop net dt ln (pc # pc' # rest) st =
         fetch_results_loop net dt ln rest
           \<lparr>all_results =
              all_results st @ [JObj (AList.update ''postal_code'' (JStr pc') entries)],
            raw_files = (raw_files st)
              (raw_filename pc' dt ln \<mapsto> JObj (AList.update ''postal_code'' (JStr pc') entries)),
            clock = fr_clock
              (fetch_with_backoff net (request_body pc' dt ln) (clock st + k + 3) 5 2)\<rparr>"
        unfolding loop [of "pc' # rest"] c1(2,3,4) by simp
    qed
    show "scrape_postal_code net dt ln pc st = Inr (st\<lparr>clock := clock st + k + 2\<rparr>)
     \<and> fetch_results_loop net dt ln (pc # rest) st =
         fetch_results_loop net dt ln rest (st\<lparr>clock := clock st + k + 2\<rparr>)
     \<and> (net (clock st + k + 2) GET = Response s' page'
        \<and> fr_value (fetch_with_backoff net (request_body pc' dt ln) (clock st + k + 3) 5 2)
            = JObj entries
        \<and> entries \<noteq> []
        \<and> results_len (JObj (AList.update ''postal_code'' (JStr pc') entries)) = Inr n \<longrightarrow>
       fetch_results_loop net dt ln (pc # pc' # rest) st =
         fetch_results_loop net dt ln rest
           \<lparr>all_results =
              all_results st @ [JObj (AList.update ''postal_code'' (JStr pc') entries)],
            raw_files = (raw_files st)
              (raw_filename pc' dt ln \<mapsto> JObj (AList.update ''postal_code'' (JStr pc') entries)),
            clock = fr_clock
              (fetch_with_backoff net (request_body pc' dt ln) (clock st + k + 3) 5 2)\<rparr>)"
      using step loop [of rest] next_key unfolding st1_def by blast
  qed
  show ?thesis using a b [of c body] d by blast
qed

lemma net_control_character_answers:
  "net_control_character n GET = Response 200 (Inl ''Expecting value'')"
  "net_control_character n (POST body) =
     Response 200 (Inl ''Invalid control character at: line 1 column 20 (char 19)'')"
  "contains ''Invalid control character at: line''
     ''Invalid control character at: line 1 column 20 (char 19)''"
  by (simp_all add: net_control_character_def)

lemma net_marker_after_retry_answers:
  "net_marker_after_retry n GET = Response 200 (Inl ''Expecting value'')"
  "attempt_result (net_marker_after_retry 1 (POST body)) = Backoff"
  "net_marker_after_retry 2 (POST body) =
     Response 200 (Inl ''Invalid control character at: line 1 column 20 (char 19)'')"
  "fetch_with_backoff net_marker_after_retry body 4 5 2 =
     \<lparr>fr_value = JObj [(''totalcount'', JInt 1),
         (''results'', JList [JObj [(''cpsonumber'', JStr ''CPSO-1'')]])],
      fr_sleeps = [], fr_retries = 0, fr_clock = 5\<rparr>"
  by (simp_all add: net_marker_after_retry_def attempt_result_def fetch_with_backoff_def
      fetch_loop.simps)

theorem control_character_returns_at_once_witness:
  "fetch_loop net_control_character (request_body ''K1A+0'' Any ''Any'') 5 3 16 7 [2, 4, 8] =
     \<lparr>fr_value = JNull, fr_sleeps = [2, 4, 8], fr_retries = 3, fr_clock = 8\<rparr>
   \<and> fetch_with_backoff net_marker_after_retry (request_body ''K1A+0'' Any ''Any'') 1 5 2 =
     \<lparr>fr_value = JNull, fr_sleeps = [2], fr_retries = 1, fr_clock = 3\<rparr>
   \<and> scrape_postal_code net_marker_after_retry Any ''Any'' ''K1A+0''
       \<lparr>all_results = [], raw_files = Map.empty, clock = 0\<rparr> =
     Inr \<lparr>all_results = [], raw_files = Map.empty, clock = 3\<rparr>
   \<and> fetch_results_loop net_marker_after_retry Any ''Any'' [''K1A+0'', ''K1A+1'']
       \<lparr>all_results = [], raw_files = Map.empty, clock = 0\<rparr> =
     Inr \<lparr>all_results = [JObj [(''totalcount'', JInt 1),
            (''results'', JList [JObj [(''cpsonumber'', JStr ''CPSO-1'')]]),
            (''postal_code'', JStr ''K1A+1'')]],
          raw_files = [''K1A+1+Any+Any.json'' \<mapsto> JObj [(''totalcount'', JInt 1),
            (''results'', JList [JObj [(''cpsonumber'', JStr ''CPSO-1'')]]),
            (''postal_code'', JStr ''K1A+1'')]],
          clock = 5\<rparr>"
proof -
  let ?msg = "''Invalid control character at: line 1 column 20 (char 19)''"
  let ?st = "\<lparr>all_results = [], raw_files = Map.empty, clock = 0\<rparr>"
  let ?entries = "[(''totalcount'', JInt 1),
         (''results'', JList [JObj [(''cpsonumber'', JStr ''CPSO-1'')]])]"
  let ?kept = "JObj [(''totalcount'', JInt 1),
            (''results'', JList [JObj [(''cpsonumber'', JStr ''CPSO-1'')]]),
            (''postal_code'', JStr ''K1A+1'')]"
  have a: "fetch_loop net_control_character (request_body ''K1A+0'' Any ''Any'') 5 3 16 7 [2, 4, 8] =
     \<lparr>fr_value = JNull, fr_sleeps = [2, 4, 8], fr_retries = 3, fr_clock = 8\<rparr>"
    using control_character_returns_at_once [where net = net_control_character and msg = ?msg
        and retries = 3 and max_retries = 5 and c = 7
        and body = "request_body ''K1A+0'' Any ''Any''" and delay = 16 and slept = "[2, 4, 8]"]
      net_control_character_answers
    by simp
  note t = control_character_returns_at_once [where net = net_marker_after_retry
      and msg = ?msg and k = 1]
  have one: "map (\<lambda>i. (2::int) * 2 ^ i) [0..<1] = [2]" by simp
  have hb: "contains ''Invalid control character at: line'' ?msg \<and> (1::nat) < 5
      \<and> (\<forall>i<1. attempt_result
            (net_marker_after_retry (1 + i) (POST (request_body ''K1A+0'' Any ''Any''))) = Backoff)
      \<and> (net_marker_after_retry (1 + 1) (POST (request_body ''K1A+0'' Any ''Any'')) = Raised ?msg
          \<or> net_marker_after_retry (1 + 1) (POST (request_body ''K1A+0'' Any ''Any''))
              = Response 200 (Inl ?msg))"
    using net_control_character_answers(3)
    by (simp add: net_marker_after_retry_def attempt_result_def)
  have "fetch_with_backoff net_marker_after_retry (request_body ''K1A+0'' Any ''Any'') 1 5 2 =
     \<lparr>fr_value = JNull, fr_sleeps = map (\<lambda>i. 2 * 2 ^ i) [0..<1], fr_retries = 1,
      fr_clock = 1 + 1 + 1\<rparr>"
    by (rule t [where c = 1 and body = "request_body ''K1A+0'' Any ''Any''",
          THEN conjunct2, THEN conjunct1, THEN mp, OF hb])
  then have b: "fetch_with_backoff net_marker_after_retry (request_body ''K1A+0'' Any ''Any'') 1 5 2
      = \<lparr>fr_value = JNull, fr_sleeps = [2], fr_retries = 1, fr_clock = 3\<rparr>"
    unfolding one by simp
  have hd: "contains ''Invalid control character at: line'' ?msg \<and> (1::nat) < 5
      \<and> net_marker_after_retry (clock ?st) GET = Response 200 (Inl ''Expecting value'')
      \<and> (\<forall>i<1. attempt_result (net_marker_after_retry (clock ?st + 1 + i)
            (POST (request_body ''K1A+0'' Any ''Any''))) = Backoff)
      \<and> (net_marker_after_retry (clock ?st + 1 + 1) (POST (request_body ''K1A+0'' Any ''Any''))
            = Raised ?msg
          \<or> net_marker_after_retry (clock ?st + 1 + 1) (POST (request_body ''K1A+0'' Any ''Any''))
            = Response 200 (Inl ?msg))"
    using net_control_character_answers(3)
    by (simp add: net_marker_after_retry_def attempt_result_def)
  note td = t [where st = ?st and s = 200 and page = "Inl ''Expecting value''"
      and pc = "''K1A+0''" and dt = Any and ln = "''Any''" and rest = "[]"
      and s' = 200 and page' = "Inl ''Expecting value''" and pc' = "''K1A+1''"
      and entries = ?entries and n = 1,
      THEN conjunct2, THEN conjunct2, rule_format, OF hd]
  have e1: "?st\<lparr>clock := clock ?st + 1 + 2\<rparr>
      = \<lparr>all_results = [], raw_files = Map.empty, clock = 3\<rparr>" by simp
  have s: "scrape_postal_code net_marker_after_retry Any ''Any'' ''K1A+0'' ?st =
     Inr \<lparr>all_results = [], raw_files = Map.empty, clock = 3\<rparr>"
    using td [THEN conjunct1] unfolding e1 .
  have hn: "net_marker_after_retry (clock ?st + 1 + 2) GET = Response 200 (Inl ''Expecting value'')
      \<and> fr_value (fetch_with_backoff net_marker_after_retry (request_body ''K1A+1'' Any ''Any'')
            (clock ?st + 1 + 3) 5 2) = JObj ?entries
      \<and> ?entries \<noteq> []
      \<and> results_len (JObj (AList.update ''postal_code'' (JStr ''K1A+1'') ?entries)) = Inr 1"
    using net_marker_after_retry_answers by (simp add: results_len_def)
  have "fetch_results_loop net_marker_after_retry Any ''Any'' [''K1A+0'', ''K1A+1''] ?st =
      fetch_results_loop net_marker_after_retry Any ''Any'' []
        \<lparr>all_results = all_results ?st
           @ [JObj (AList.update ''postal_code'' (JStr ''K1A+1'') ?entries)],
         raw_files = (raw_files ?st)
           (raw_filename ''K1A+1'' Any ''Any'' \<mapsto>
              JObj (AList.update ''postal_code'' (JStr ''K1A+1'') ?entries)),
         clock = fr_clock (fetch_with_backoff net_marker_after_retry
           (request_body ''K1A+1'' Any ''Any'') (clock ?st + 1 + 3) 5 2)\<rparr>"
    by (rule td [THEN conjunct2, THEN conjunct2, THEN mp, OF hn])
  then have l: "fetch_results_loop net_marker_after_retry Any ''Any'' [''K1A+0'', ''K1A+1''] ?st =
     Inr \<lparr>all_results = [?kept], raw_files = [''K1A+1+Any+Any.json'' \<mapsto> ?kept], clock = 5\<rparr>"
    using net_marker_after_retry_answers(4) by (simp add: raw_filename_def)
  show ?thesis by (rule conjI [OF a conjI [OF b conjI [OF s l]]])
qed

text \<open>
  C8 (as amended). The fetch stage never reads the raw store: it requests every postal
  code again, whatever files exist, so its results and the number of its requests, at
  least two per postal code, are the same for any store it starts from. It writes no file
  but the one named by the postal code, the doctor type and the last name, overwriting
  it, so a second run adds no file name. When the server answers the second run as it
  answered the first, the second run ends in the same state and leaves the raw store,
  and so everything computed from it alone, as the first run left it.
\<close>

theorem rerun_fetches_again_and_overwrites:
  assumes "fetch_results_with_rate_limit net pcs dt ln files = Inr st"
  shows "dom (raw_files st) \<subseteq> dom files \<union> (\<lambda>pc. raw_filename pc dt ln) ` set pcs
    \<and> fetch_results_with_rate_limit net pcs dt ln (raw_files st) = Inr st
    \<and> (\<exists>st'. fetch_results_with_rate_limit net pcs dt ln files' = Inr st'
          \<and> all_results st' = all_results st \<and> clock st' = clock st)
    \<and> 2 * length pcs \<le> clock st"
proof -
  let ?st0 = "\<lparr>all_results = [], raw_files = files, clock = 0\<rparr>"
  have run: "fetch_results_loop net dt ln pcs ?st0 = Inr st"
    using assms by (simp add: fetch_results_with_rate_limit_def)
  from loop_files [OF run] obtain W where
    d: "dom W \<subseteq> (\<lambda>pc. raw_filename pc dt ln) ` set pcs"
    and w: "\<And>F. fetch_results_loop net dt ln pcs (?st0\<lparr>raw_files := F\<rparr>)
        = Inr (st\<lparr>raw_files := F ++ W\<rparr>)"
    by blast
  have f: "raw_files st = files ++ W" using w [of files] run by (cases st) simp
  have a: "dom (raw_files st) \<subseteq> dom files \<union> (\<lambda>pc. raw_filename pc dt ln) ` set pcs"
    using d f by auto
  have "(files ++ W) ++ W = files ++ W"
    by (rule ext) (simp add: map_add_def split: option.splits)
  then have b: "fetch_results_with_rate_limit net pcs dt ln (raw_files st) = Inr st"
    using w [of "files ++ W"] f by (simp add: fetch_results_with_rate_limit_def)
  have c: "\<exists>st'. fetch_results_with_rate_limit net pcs dt ln files' = Inr st'
          \<and> all_results st' = all_results st \<and> clock st' = clock st"
    using w [of files'] by (simp add: fetch_results_with_rate_limit_def)
  have e: "2 * length pcs \<le> clock st" using loop_clock [OF run] by simp
  show ?thesis using a b c e by blast
qed

lemma first_run_with_count:
  "fetch_results_with_rate_limit (net_count t) [''K1A+0''] Any ''Any'' files =
     Inr \<lparr>all_results = [JObj [(''totalcount'', JInt t), (''results'', JList []),
            (''postal_code'', JStr ''K1A+0'')]],
          raw_files = files(''K1A+0+Any+Any.json'' \<mapsto>
            JObj [(''totalcount'', JInt t), (''results'', JList []),
                  (''postal_code'', JStr ''K1A+0'')]),
          clock = 2\<rparr>"
  by (simp add: fetch_results_with_rate_limit_def scrape_postal_code_def fetch_with_backoff_def
      fetch_loop.simps attempt_result_def net_count_def results_len_def raw_filename_def Let_def)

theorem rerun_fetches_again_and_overwrites_witness:
  "fetch_results_with_rate_limit (net_count 3) [''K1A+0''] Any ''Any'' Map.empty =
     Inr \<lparr>all_results = [JObj [(''totalcount'', JInt 3), (''results'', JList []),
            (''postal_code'', JStr ''K1A+0'')]],
          raw_files = [''K1A+0+Any+Any.json'' \<mapsto>
            JObj [(''totalcount'', JInt 3), (''results'', JList []),
                  (''postal_code'', JStr ''K1A+0'')]],
          clock = 2\<rparr>
   \<and> fetch_results_with_rate_limit (net_count 3) [''K1A+0''] Any ''Any''
       [''K1A+0+Any+Any.json'' \<mapsto>
            JObj [(''totalcount'', JInt 3), (''results'', JList []),
                  (''postal_code'', JStr ''K1A+0'')]] =
     Inr \<lparr>all_results = [JObj [(''totalcount'', JInt 3), (''results'', JList []),
            (''postal_code'', JStr ''K1A+0'')]],
          raw_files = [''K1A+0+Any+Any.json'' \<mapsto>
            JObj [(''totalcount'', JInt 3), (''results'', JList []),
                  (''postal_code'', JStr ''K1A+0'')]],
          clock = 2\<rparr>"
proof -
  have r: "fetch_results_with_rate_limit (net_count 3) [''K1A+0''] Any ''Any'' Map.empty =
     Inr \<lparr>all_results = [JObj [(''totalcount'', JInt 3), (''results'', JList []),
            (''postal_code'', JStr ''K1A+0'')]],
          raw_files = [''K1A+0+Any+Any.json'' \<mapsto>
            JObj [(''totalcount'', JInt 3), (''results'', JList []),
                  (''postal_code'', JStr ''K1A+0'')]],
          clock = 2\<rparr>"
    by (rule first_run_with_count)
  from rerun_fetches_again_and_overwrites [OF r, THEN conjunct2, THEN conjunct1]
  have "fetch_results_with_rate_limit (net_count 3) [''K1A+0''] Any ''Any''
       [''K1A+0+Any+Any.json'' \<mapsto>
            JObj [(''totalcount'', JInt 3), (''results'', JList []),
                  (''postal_code'', JStr ''K1A+0'')]] =
     Inr \<lparr>all_results = [JObj [(''totalcount'', JInt 3), (''results'', JList []),
            (''postal_code'', JStr ''K1A+0'')]],
          raw_files = [''K1A+0+Any+Any.json'' \<mapsto>
            JObj [(''totalcount'', JInt 3), (''results'', JList []),
                  (''postal_code'', JStr ''K1A+0'')]],
          clock = 2\<rparr>"
    by simp
  then show ?thesis using r by blast
qed

text \<open>
  The raw store holds the file of \<open>K1A+0\<close> from a first run in which the server counted 3.
  In the second run the server counts 5: the key is requested again (the clock ends at 2)
  and its file is overwritten.
\<close>

theorem rerun_counterexample:
  "fetch_results_with_rate_limit (net_count 3) [''K1A+0''] Any ''Any'' Map.empty =
     Inr \<lparr>all_results = [JObj [(''totalcount'', JInt 3), (''results'', JList []),
            (''postal_code'', JStr ''K1A+0'')]],
          raw_files = [''K1A+0+Any+Any.json'' \<mapsto>
            JObj [(''totalcount'', JInt 3), (''results'', JList []),
                  (''postal_code'', JStr ''K1A+0'')]],
          clock = 2\<rparr>
   \<and> fetch_results_with_rate_limit (net_count 5) [''K1A+0''] Any ''Any''
       [''K1A+0+Any+Any.json'' \<mapsto>
            JObj [(''totalcount'', JInt 3), (''results'', JList []),
                  (''postal_code'', JStr ''K1A+0'')]] =
     Inr \<lparr>all_results = [JObj [(''totalcount'', JInt 5), (''results'', JList []),
            (''postal_code'', JStr ''K1A+0'')]],
          raw_files = [''K1A+0+Any+Any.json'' \<mapsto>
            JObj [(''totalcount'', JInt 5), (''results'', JList []),
                  (''postal_code'', JStr ''K1A+0'')]],
          clock = 2\<rparr>"
  by (simp add: first_run_with_count)

lemma loop_all_fail:
  assumes g: "\<forall>n. \<exists>s page. net n GET = Response s page"
    and p: "\<forall>n body. attempt_result (net n (POST body)) = Backoff"
  shows "fetch_results_loop net dt ln pcs st = Inr (st\<lparr>clock := clock st + 6 * length pcs\<rparr>)"
proof (induction pcs arbitrary: st)
  case Nil
  then show ?case by simp
next
  case (Cons pc pcs)
  obtain s page where get: "net (clock st) GET = Response s page" using g by blast
  have f: "fetch_with_backoff net (request_body pc dt ln) (clock st + 1) 5 2 =
     \<lparr>fr_value = JNull, fr_sleeps = map (\<lambda>i. 2 * 2 ^ i) [0..<5], fr_retries = 5,
      fr_clock = clock st + 1 + 5\<rparr>"
    using p by (intro fetch_gives_up) simp
  have "scrape_postal_code net dt ln pc st = Inr (st\<lparr>clock := clock st + 6\<rparr>)"
    using scrape_skip [where net = net and st = st and s = s and page = page and pc = pc
        and dt = dt and ln = ln] get f
    by simp
  then show ?case using Cons.IH [of "st\<lparr>clock := clock st + 6\<rparr>"] by simp
qed

text \<open>
  C9 (as amended). A failed key is not reported. The summary of a run that returns holds
  the number of input postal codes, failed ones included, and the number of doctors in
  the results kept. A key whose fetch returns a value that is not truthy, \<open>None\<close> after a
  failure, changes nothing but the clock: it leaves no entry in the results and no file.
  When every key fails, all the requests falling through to the backoff, the run returns
  no result, writes no file and prints 0 doctors across the number of input postal codes.
\<close>

theorem failed_key_leaves_no_trace:
  "(run_simple_scrape net pcs dt ln files = Inr report \<longrightarrow>
      summary_postal_codes report = length pcs
      \<and> total_results (results report) = Inr (summary_doctors report))
   \<and> (net (clock st) GET = Response s page
      \<and> \<not> truthy (fr_value (fetch_with_backoff net (request_body pc dt ln) (clock st + 1) 5 2))
      \<longrightarrow>
     fetch_results_loop net dt ln (pc # rest) st =
       fetch_results_loop net dt ln rest
         (st\<lparr>clock :=
              fr_clock (fetch_with_backoff net (request_body pc dt ln) (clock st + 1) 5 2)\<rparr>))
   \<and> ((\<forall>n. \<exists>s page. net n GET = Response s page)
      \<and> (\<forall>n body. attempt_result (net n (POST body)) = Backoff) \<longrightarrow>
     run_simple_scrape net pcs dt ln files =
       Inr \<lparr>summary_doctors = 0, summary_postal_codes = length pcs, results = [],
            files_after = files\<rparr>)"
proof -
  have a: "run_simple_scrape net pcs dt ln files = Inr report \<longrightarrow>
      summary_postal_codes report = length pcs
      \<and> total_results (results report) = Inr (summary_doctors report)"
    by (auto simp: run_simple_scrape_def split: sum.splits)
  have b: "net (clock st) GET = Response s page
      \<and> \<not> truthy (fr_value (fetch_with_backoff net (request_body pc dt ln) (clock st + 1) 5 2))
      \<longrightarrow>
     fetch_results_loop net dt ln (pc # rest) st =
       fetch_results_loop net dt ln rest
         (st\<lparr>clock :=
              fr_clock (fetch_with_backoff net (request_body pc dt ln) (clock st + 1) 5 2)\<rparr>)"
    using scrape_skip [of net st s page pc dt ln] by simp
  have c: "(\<forall>n. \<exists>s page. net n GET = Response s page)
      \<and> (\<forall>n body. attempt_result (net n (POST body)) = Backoff) \<longrightarrow>
     run_simple_scrape net pcs dt ln files =
       Inr \<lparr>summary_doctors = 0, summary_postal_codes = length pcs, results = [],
            files_after = files\<rparr>"
  proof
    assume h: "(\<forall>n. \<exists>s page. net n GET = Response s page)
      \<and> (\<forall>n body. attempt_result (net n (POST body)) = Backoff)"
    have "fetch_results_loop net dt ln pcs \<lparr>all_results = [], raw_files = files, clock = 0\<rparr>
        = Inr (\<lparr>all_results = [], raw_files = files, clock = 0\<rparr>
                \<lparr>clock := clock \<lparr>all_results = [], raw_files = files, clock = 0\<rparr>
                   + 6 * length pcs\<rparr>)"
      using h by (intro loop_all_fail) blast+
    then show "run_simple_scrape net pcs dt ln files =
       Inr \<lparr>summary_doctors = 0, summary_postal_codes = length pcs, results = [],
            files_after = files\<rparr>"
      by (simp add: run_simple_scrape_def fetch_results_with_rate_limit_def)
  qed
  show ?thesis using a b c by blast
qed

lemma fetch_timeout:
  "fetch_with_backoff net_timeout body c 5 2 =
     \<lparr>fr_value = JNull, fr_sleeps = [2, 4, 8, 16, 32], fr_retries = 5, fr_clock = c + 5\<rparr>"
  using fetch_gives_up [of 5 net_timeout c body 2] net_timeout_answers five_sleeps by simp

lemma run_timeout:
  "run_simple_scrape net_timeout [''K1A+0''] Any ''Any'' Map.empty =
     Inr \<lparr>summary_doctors = 0, summary_postal_codes = 1, results = [],
          files_after = Map.empty\<rparr>"
  by (simp add: run_simple_scrape_def fetch_results_with_rate_limit_def scrape_postal_code_def
      fetch_timeout net_timeout_answers Let_def)

lemma run_with_count:
  "run_simple_scrape (net_count t) [''K1A+0''] Any ''Any'' Map.empty =
     Inr \<lparr>summary_doctors = 0, summary_postal_codes = 1,
          results = [JObj [(''totalcount'', JInt t), (''results'', JList []),
            (''postal_code'', JStr ''K1A+0'')]],
          files_after = [''K1A+0+Any+Any.json'' \<mapsto>
            JObj [(''totalcount'', JInt t), (''results'', JList []),
                  (''postal_code'', JStr ''K1A+0'')]]\<rparr>"
  by (simp add: run_simple_scrape_def first_run_with_count results_len_def)

theorem failed_key_leaves_no_trace_witness:
  "run_simple_scrape net_timeout [''K1A+0'', ''K1A+1''] Any ''Any'' Map.empty =
     Inr \<lparr>summary_doctors = 0, summary_postal_codes = 2, results = [],
          files_after = Map.empty\<rparr>
   \<and> summary_postal_codes \<lparr>summary_doctors = 0, summary_postal_codes = 2, results = [],
          files_after = Map.empty\<rparr> = length [''K1A+0'', ''K1A+1'']
   \<and> fetch_results_loop net_timeout Any ''Any'' [''K1A+0'']
       \<lparr>all_results = [], raw_files = Map.empty, clock = 0\<rparr> =
     Inr \<lparr>all_results = [], raw_files = Map.empty, clock = 6\<rparr>"
proof -
  let ?st = "\<lparr>all_results = [], raw_files = Map.empty, clock = 0\<rparr>"
  let ?report = "\<lparr>summary_doctors = 0, summary_postal_codes = 2, results = [],
          files_after = Map.empty\<rparr>"
  note t = failed_key_leaves_no_trace [where net = net_timeout]
  have all_fail: "(\<forall>n. \<exists>s page. net_timeout n GET = Response s page)
      \<and> (\<forall>n body. attempt_result (net_timeout n (POST body)) = Backoff)"
    using net_timeout_answers by simp
  have "run_simple_scrape net_timeout [''K1A+0'', ''K1A+1''] Any ''Any'' Map.empty =
     Inr \<lparr>summary_doctors = 0, summary_postal_codes = length [''K1A+0'', ''K1A+1''],
          results = [], files_after = Map.empty\<rparr>"
    using t [where pcs = "[''K1A+0'', ''K1A+1'']" and dt = Any and ln = "''Any''"
        and files = Map.empty] all_fail
    by blast
  then have r: "run_simple_scrape net_timeout [''K1A+0'', ''K1A+1''] Any ''Any'' Map.empty
      = Inr ?report"
    by simp
  have a: "summary_postal_codes ?report = length [''K1A+0'', ''K1A+1'']"
    using t [where pcs = "[''K1A+0'', ''K1A+1'']" and dt = Any and ln = "''Any''"
        and files = Map.empty and report = ?report] r
    by blast
  have h: "net_timeout (clock ?st) GET = Response 200 (Inl ''Expecting value'')
      \<and> \<not> truthy (fr_value (fetch_with_backoff net_timeout (request_body ''K1A+0'' Any ''Any'')
              (clock ?st + 1) 5 2))"
    by (simp add: fetch_timeout net_timeout_answers)
  have "fetch_results_loop net_timeout Any ''Any'' [''K1A+0''] ?st =
      fetch_results_loop net_timeout Any ''Any'' []
        (?st\<lparr>clock := fr_clock (fetch_with_backoff net_timeout
           (request_body ''K1A+0'' Any ''Any'') (clock ?st + 1) 5 2)\<rparr>)"
    using t [where st = ?st and s = 200 and page = "Inl ''Expecting value''"
        and pc = "''K1A+0''" and dt = Any and ln = "''Any''" and rest = "[]"] h
    by blast
  then have b: "fetch_results_loop net_timeout Any ''Any'' [''K1A+0''] ?st =
     Inr \<lparr>all_results = [], raw_files = Map.empty, clock = 6\<rparr>"
    by (simp add: fetch_timeout)
  show ?thesis using r a b by blast
qed

text \<open>
  The key \<open>K1A+0\<close> fails in the first run, every request timing out, and succeeds with
  no doctor in the second. Both runs print the same summary, 0 doctors across 1 postal
  code; the first returns no result and writes no file.
\<close>

theorem failed_key_not_reported_counterexample:
  "fr_value (fetch_with_backoff net_timeout (request_body ''K1A+0'' Any ''Any'') 1 5 2) = JNull
   \<and> run_simple_scrape net_timeout [''K1A+0''] Any ''Any'' Map.empty =
     Inr \<lparr>summary_doctors = 0, summary_postal_codes = 1, results = [],
          files_after = Map.empty\<rparr>
   \<and> run_simple_scrape (net_count 0) [''K1A+0''] Any ''Any'' Map.empty =
     Inr \<lparr>summary_doctors = 0, summary_postal_codes = 1,
          results = [JObj [(''totalcount'', JInt 0), (''results'', JList []),
            (''postal_code'', JStr ''K1A+0'')]],
          files_after = [''K1A+0+Any+Any.json'' \<mapsto>
            JObj [(''totalcount'', JInt 0), (''results'', JList []),
                  (''postal_code'', JStr ''K1A+0'')]]\<rparr>"
  by (simp add: run_timeout fetch_timeout run_with_count)

end
